theory Spec2Isabelle
  imports Main "HOL-Library.Word"
begin

unbundle bit_operations_syntax

section \<open>The Razer Naga driver (librazer/hw_naga.c)\<close>

text \<open>
  A shallow embedding of \<^verbatim>\<open>src/librazer/hw_naga.c\<close>. C integers that are compared with
  enumerators are \<open>int\<close>; bytes are \<open>8 word\<close>; the packed 90-byte \<^verbatim>\<open>struct naga_command\<close>
  is the list of its bytes, so that the checksum, which reads the struct as raw memory, and the
  field assignments act on one and the same object. Every function that touches the USB
  transport takes the transport state and returns it updated.
\<close>

subsection \<open>Basic types\<close>

type_synonym u8 = "8 word"
type_synonym u16 = "16 word"
type_synonym u32 = "32 word"

text \<open>
  Error results. \<open>EBUSY\<close>, \<open>EINVAL\<close>, \<open>ENODEV\<close>, \<open>EIO\<close> and \<open>ENOMEM\<close> stand for the negated
  errno values the C functions return. \<open>ECODE r\<close> is a non-zero value \<open>r\<close> handed up unchanged
  from a callee outside this file (\<^verbatim>\<open>if (err) return err;\<close>): on the transport path a
  negative libusb code or a short byte count. \<open>FAULT\<close> marks a place where the C program
  would dereference a null or out-of-array pointer; the model stops there.
\<close>

datatype error = EBUSY | EINVAL | ENODEV | EIO | ENOMEM | ECODE int | FAULT

text \<open>
  Modelled from the spec: \<^verbatim>\<open>enum razer_led_state\<close> of razer.h, which is not under src/
  (``each entry one of {on, off, unsupported}''). \<open>RAZER_LED_OFF\<close> is the enumerator with
  value zero: the driver tests a stored state for truth to obtain the enable byte.
\<close>

datatype razer_led_state = RAZER_LED_OFF | RAZER_LED_ON | RAZER_LED_UNKNOWN

text \<open>
  Modelled from the spec: the enumerators of \<^verbatim>\<open>enum razer_mouse_freq\<close> of razer.h, which is
  not under src/ (``enum over {125, 500, 1000 Hz, unspecified}''). A C enum is an integer,
  and the driver's own \<^verbatim>\<open>default:\<close> branch handles values that are none of the
  enumerators, so a frequency is an \<open>int\<close>.
\<close>

definition RAZER_MOUSE_FREQ_UNKNOWN :: int where "RAZER_MOUSE_FREQ_UNKNOWN = 0"
definition RAZER_MOUSE_FREQ_125HZ :: int where "RAZER_MOUSE_FREQ_125HZ = 125"
definition RAZER_MOUSE_FREQ_500HZ :: int where "RAZER_MOUSE_FREQ_500HZ = 500"
definition RAZER_MOUSE_FREQ_1000HZ :: int where "RAZER_MOUSE_FREQ_1000HZ = 1000"

definition NAGA_LED_SCROLL :: nat where "NAGA_LED_SCROLL = 0"
definition NAGA_LED_LOGO :: nat where "NAGA_LED_LOGO = 1"
definition NAGA_LED_THUMB_GRID :: nat where "NAGA_LED_THUMB_GRID = 2"
definition NAGA_NR_LEDS :: nat where "NAGA_NR_LEDS = 3"

definition NAGA_5600_NR_DPIMAPPINGS :: nat where "NAGA_5600_NR_DPIMAPPINGS = 56"
definition NAGA_8200_NR_DPIMAPPINGS :: nat where "NAGA_8200_NR_DPIMAPPINGS = 82"
definition NAGA_NR_DPIMAPPINGS :: nat where "NAGA_NR_DPIMAPPINGS = NAGA_8200_NR_DPIMAPPINGS"
definition NAGA_NR_AXES :: nat where "NAGA_NR_AXES = 3"

subsection \<open>The command packet\<close>

text \<open>
  \<^verbatim>\<open>struct naga_command\<close> is packed and 90 bytes long (\<^verbatim>\<open>BUILD_BUG_ON\<close> in
  \<^verbatim>\<open>razer_naga_init\<close>). Offsets of its fields: status 0, padding0 1..3, command 4..5,
  request 6..7, values 8..12, padding1 13..87, checksum 88, padding2 89.
\<close>

type_synonym naga_command = "u8 list"

definition sizeof_naga_command :: nat where "sizeof_naga_command = 90"

definition off_status :: nat where "off_status = 0"
definition off_command :: nat where "off_command = 4"
definition off_request :: nat where "off_request = 6"
definition off_values :: nat where "off_values = 8"
definition off_checksum :: nat where "off_checksum = 88"

text \<open>Storing \<^verbatim>\<open>cpu_to_be16(v)\<close> at a byte offset: high byte first.\<close>

definition store_be16 :: "nat \<Rightarrow> u16 \<Rightarrow> naga_command \<Rightarrow> naga_command" where
  "store_be16 off v cmd = cmd[off := ucast (drop_bit 8 v), off + 1 := ucast v]"

text \<open>Reading a \<^verbatim>\<open>be16_t\<close> at a byte offset through \<^verbatim>\<open>be16_to_cpu\<close>.\<close>

definition load_be16 :: "nat \<Rightarrow> naga_command \<Rightarrow> u16" where
  "load_be16 off cmd = push_bit 8 (ucast (cmd ! off)) OR ucast (cmd ! (off + 1))"

definition naga_command_init :: naga_command where
  "naga_command_init = replicate sizeof_naga_command 0"

text \<open>
  Modelled from the spec: \<^verbatim>\<open>razer_xor8_checksum(buffer, size)\<close> of util.c, which is not under
  src/ (``XOR-accumulation''): the XOR of the \<open>size\<close> bytes that start at \<open>buffer\<close>. The
  argument here is that run of bytes.
\<close>

definition razer_xor8_checksum :: "u8 list \<Rightarrow> u8" where
  "razer_xor8_checksum buffer = foldl (XOR) 0 buffer"

subsection \<open>The USB transport\<close>

text \<open>
  \<^verbatim>\<open>libusb_control_transfer\<close> is outside the program. The device is a sequence of replies,
  one per transfer in the order the transfers are made: the return value of the call and, for
  an IN transfer, the bytes the device places at the start of the buffer. Quantifying over
  the sequence covers every device behaviour. The trace records what the driver did:
  each transfer (an OUT transfer with the packet sent) and each \<^verbatim>\<open>razer_msleep\<close>.
  The packet-spacing scope around each transfer only delays; it is not modelled.
\<close>

record usb_reply =
  ret :: int
  data :: "u8 list"

datatype io_event = Usb_write "u8 list" | Usb_read | Msleep nat

record usb_io =
  device :: "nat \<Rightarrow> usb_reply"
  transfers :: nat
  trace :: "io_event list"

datatype usb_dir = LIBUSB_ENDPOINT_OUT | LIBUSB_ENDPOINT_IN

definition libusb_control_transfer ::
  "usb_dir \<Rightarrow> u8 list \<Rightarrow> usb_io \<Rightarrow> int \<times> u8 list \<times> usb_io" where
  "libusb_control_transfer dir buf io =
     (let r = device io (transfers io) in
      case dir of
        LIBUSB_ENDPOINT_OUT \<Rightarrow>
          (ret r, buf, io\<lparr>transfers := transfers io + 1, trace := trace io @ [Usb_write buf]\<rparr>)
      | LIBUSB_ENDPOINT_IN \<Rightarrow>
          (ret r, take (length buf) (data r @ drop (length (data r)) buf),
           io\<lparr>transfers := transfers io + 1, trace := trace io @ [Usb_read]\<rparr>))"

definition razer_msleep :: "nat \<Rightarrow> usb_io \<Rightarrow> usb_io" where
  "razer_msleep msecs io = io\<lparr>trace := trace io @ [Msleep msecs]\<rparr>"

text \<open>The number of transport calls recorded in a trace.\<close>

fun is_transfer :: "io_event \<Rightarrow> bool" where
  "is_transfer (Usb_write _) = True"
| "is_transfer Usb_read = True"
| "is_transfer (Msleep _) = False"

definition transport_calls :: "io_event list \<Rightarrow> nat" where
  "transport_calls evs = length (filter is_transfer evs)"

text \<open>The packets written, in order.\<close>

fun written :: "io_event list \<Rightarrow> u8 list list" where
  "written [] = []"
| "written (Usb_write p # evs) = p # written evs"
| "written (_ # evs) = written evs"

definition naga_usb_write :: "u8 list \<Rightarrow> usb_io \<Rightarrow> int \<times> usb_io" where
  "naga_usb_write buf io =
     (case libusb_control_transfer LIBUSB_ENDPOINT_OUT buf io of
        (err, _, io') \<Rightarrow>
          if err < 0 \<or> err \<noteq> int (length buf) then (err, io') else (0, io'))"

text \<open>
  The read loop: up to three transfers, leaving at the first one that returns the full size.
  \<open>err\<close> is the value of the C variable, assigned in every iteration.
\<close>

function naga_usb_read_loop :: "nat \<Rightarrow> int \<Rightarrow> u8 list \<Rightarrow> usb_io \<Rightarrow> int \<times> u8 list \<times> usb_io" where
  "naga_usb_read_loop try err buf io =
     (if try < 3 then
        (case libusb_control_transfer LIBUSB_ENDPOINT_IN buf io of
           (err', buf', io') \<Rightarrow>
             if err' \<ge> 0 \<and> err' = int (length buf) then (err', buf', io')
             else naga_usb_read_loop (try + 1) err' buf' io')
      else (err, buf, io))"
  by pat_completeness auto
termination
  by (relation "measure (\<lambda>(try, err, buf, io). 3 - try)") auto

declare naga_usb_read_loop.simps [simp del]

definition naga_usb_read :: "u8 list \<Rightarrow> usb_io \<Rightarrow> int \<times> u8 list \<times> usb_io" where
  "naga_usb_read buf io =
     (case naga_usb_read_loop 0 0 buf io of
        (err, buf', io') \<Rightarrow>
          if err < 0 \<or> err \<noteq> int (length buf) then (err, buf', io') else (0, buf', io'))"

text \<open>
  \<^verbatim>\<open>naga_send_command\<close>: sign, write, read the answer back into the same buffer.
  \<open>sign\<close> is its first statement,
  \<^verbatim>\<open>cmd->checksum = razer_xor8_checksum((uint8_t *)cmd + 2, sizeof(*cmd) - 4)\<close>:
  the pointer is advanced by 2 and the second argument is a byte count. A status byte other
  than 0, 1, 2 is only logged.
\<close>

definition sign :: "naga_command \<Rightarrow> naga_command" where
  "sign cmd = cmd[off_checksum := razer_xor8_checksum (take (sizeof_naga_command - 4) (drop 2 cmd))]"

definition naga_send_command :: "naga_command \<Rightarrow> usb_io \<Rightarrow> int \<times> naga_command \<times> usb_io" where
  "naga_send_command cmd io =
     (let cmd1 = sign cmd in
      case naga_usb_write cmd1 io of
        (err, io1) \<Rightarrow>
          if err \<noteq> 0 then (err, cmd1, io1)
          else (case naga_usb_read cmd1 io1 of
                  (err2, cmd2, io2) \<Rightarrow>
                    if err2 \<noteq> 0 then (err2, cmd2, io2) else (0, cmd2, io2)))"

subsection \<open>Driver state\<close>

text \<open>
  \<^verbatim>\<open>struct razer_mouse_dpimapping\<close> (razer.h): of the resolution array only
  \<^verbatim>\<open>res[RAZER_DIM_0]\<close> is ever read or written by this driver.
\<close>

record razer_mouse_dpimapping =
  nr :: nat
  res_DIM_0 :: int
  dimension_mask :: nat

record razer_axis =
  axis_id :: nat
  axis_name :: string
  independent_dpimapping :: bool

text \<open>The two functions the pointer \<^verbatim>\<open>command_init_resolution\<close> is ever set to.\<close>

datatype resolution_fn =
  Naga_command_init_resolution_5600 | Naga_command_init_resolution_8200

text \<open>
  \<^verbatim>\<open>struct naga_private\<close>. A pointer into the \<^verbatim>\<open>dpimapping\<close> array is the index of the
  slot, \<open>None\<close> is the null pointer. The profile (a table of function pointers) and the
  packet-spacing timer are left out.
\<close>

record naga_private =
  fw_version :: u16
  led_states :: "razer_led_state list"
  frequency :: int
  cur_dpimapping_X :: "nat option"
  cur_dpimapping_Y :: "nat option"
  dpimapping :: "razer_mouse_dpimapping list"
  nb_dpimappings :: nat
  command_init_resolution :: "resolution_fn option"
  axes :: "razer_axis list"
  commit_pending :: bool

datatype razer_mouseflg = RAZER_MOUSEFLG_SUGGESTFWUP

text \<open>
  \<^verbatim>\<open>struct razer_mouse\<close>, as far as this driver uses it, together with the transport
  behind its USB handle. \<open>drv_data = None\<close> is a null or freed private struct.
\<close>

record razer_mouse =
  claim_count :: nat
  flags :: "razer_mouseflg set"
  model :: string
  drv_data :: "naga_private option"
  usb :: usb_io

text \<open>The table \<^verbatim>\<open>naga_leds\<close>: name and the two id bytes of each LED.\<close>

definition naga_leds :: "(string \<times> u8 list) list" where
  "naga_leds = [(''Scrollwheel'', [0x01, 0x01]),
                (''GlowingLogo'', [0x01, 0x04]),
                (''ThumbGrid'', [0x01, 0x05])]"

subsection \<open>Command builders\<close>

definition deref_dpimapping :: "naga_private \<Rightarrow> nat option \<Rightarrow> razer_mouse_dpimapping option" where
  "deref_dpimapping priv p =
     (case p of
        None \<Rightarrow> None
      | Some i \<Rightarrow> if i < length (dpimapping priv) then Some (dpimapping priv ! i) else None)"

text \<open>
  The 5600 builder computes in \<^verbatim>\<open>unsigned int\<close> and stores the low byte; the 8200 builder
  converts to a 16-bit big-endian value and copies it to \<^verbatim>\<open>values + 1\<close> and
  \<^verbatim>\<open>values + 3\<close>.
\<close>

definition naga_command_init_resolution_5600 :: "naga_private \<Rightarrow> naga_command option" where
  "naga_command_init_resolution_5600 priv =
     (case (deref_dpimapping priv (cur_dpimapping_X priv),
            deref_dpimapping priv (cur_dpimapping_Y priv)) of
        (Some mx, Some my) \<Rightarrow>
          (let cmd = store_be16 off_request 0x0401
                       (store_be16 off_command 0x0003 naga_command_init);
               xres = ((word_of_int (res_DIM_0 mx) :: u32) div 100 - 1) * 4;
               yres = ((word_of_int (res_DIM_0 my) :: u32) div 100 - 1) * 4
           in Some (cmd[off_values := ucast xres, off_values + 1 := ucast yres]))
      | _ \<Rightarrow> None)"

definition naga_command_init_resolution_8200 :: "naga_private \<Rightarrow> naga_command option" where
  "naga_command_init_resolution_8200 priv =
     (case (deref_dpimapping priv (cur_dpimapping_X priv),
            deref_dpimapping priv (cur_dpimapping_Y priv)) of
        (Some mx, Some my) \<Rightarrow>
          (let cmd = store_be16 off_request 0x0405
                       (store_be16 off_command 0x0007 naga_command_init);
               xres = (word_of_int (res_DIM_0 mx) :: u16);
               yres = (word_of_int (res_DIM_0 my) :: u16)
           in Some (store_be16 (off_values + 3) yres (store_be16 (off_values + 1) xres cmd)))
      | _ \<Rightarrow> None)"

text \<open>The indirect call \<^verbatim>\<open>priv->command_init_resolution(&cmd, priv)\<close>.\<close>

definition call_command_init_resolution :: "naga_private \<Rightarrow> naga_command option" where
  "call_command_init_resolution priv =
     (case command_init_resolution priv of
        None \<Rightarrow> None
      | Some Naga_command_init_resolution_5600 \<Rightarrow> naga_command_init_resolution_5600 priv
      | Some Naga_command_init_resolution_8200 \<Rightarrow> naga_command_init_resolution_8200 priv)"

text \<open>The LED command built inside the loop of \<^verbatim>\<open>naga_do_commit\<close>.\<close>

definition led_command :: "nat \<Rightarrow> razer_led_state \<Rightarrow> naga_command" where
  "led_command led_id st =
     (let cmd = store_be16 off_request 0x0300
                  (store_be16 off_command 0x0003 naga_command_init);
          cmd = cmd[off_values := snd (naga_leds ! led_id) ! 0,
                    off_values + 1 := snd (naga_leds ! led_id) ! 1]
      in if st \<noteq> RAZER_LED_OFF then cmd[off_values + 2 := 1] else cmd)"

text \<open>The frequency command built at the end of \<^verbatim>\<open>naga_do_commit\<close>.\<close>

definition freq_command :: "u8 \<Rightarrow> naga_command" where
  "freq_command freq =
     (store_be16 off_request 0x0005
        (store_be16 off_command 0x0001 naga_command_init))[off_values := freq]"

text \<open>The firmware query built in the loop of \<^verbatim>\<open>naga_read_fw_ver\<close>.\<close>

definition fw_ver_command :: naga_command where
  "fw_ver_command = store_be16 off_request 0x0081
                      (store_be16 off_command 0x0002 naga_command_init)"

subsection \<open>Firmware probe\<close>

function naga_read_fw_ver_loop :: "nat \<Rightarrow> usb_io \<Rightarrow> (error + u16) \<times> usb_io" where
  "naga_read_fw_ver_loop i io =
     (if i < 5 then
        (case naga_send_command fw_ver_command io of
           (err, cmd, io') \<Rightarrow>
             (let ver = load_be16 off_values cmd in
              if err = 0 \<and> ver AND 0xFF00 \<noteq> 0 then (Inr ver, io')
              else naga_read_fw_ver_loop (i + 1) (razer_msleep 250 io')))
      else (Inl ENODEV, io))"
  by pat_completeness auto
termination
  by (relation "measure (\<lambda>(i, io). 5 - i)") auto

declare naga_read_fw_ver_loop.simps [simp del]

definition naga_read_fw_ver :: "usb_io \<Rightarrow> (error + u16) \<times> usb_io" where
  "naga_read_fw_ver io = naga_read_fw_ver_loop 0 io"

subsection \<open>Commit\<close>

text \<open>The LED loop of \<^verbatim>\<open>naga_do_commit\<close>; the result is the value of \<^verbatim>\<open>err\<close>.\<close>

function naga_do_commit_leds :: "nat \<Rightarrow> naga_private \<Rightarrow> usb_io \<Rightarrow> int \<times> usb_io" where
  "naga_do_commit_leds led_id priv io =
     (if led_id < NAGA_NR_LEDS then
        (if led_states priv ! led_id = RAZER_LED_UNKNOWN
         then naga_do_commit_leds (led_id + 1) priv io
         else (case naga_send_command (led_command led_id (led_states priv ! led_id)) io of
                 (err, _, io') \<Rightarrow>
                   if err \<noteq> 0 then (err, io')
                   else naga_do_commit_leds (led_id + 1) priv io'))
      else (0, io))"
  by pat_completeness auto
termination
  by (relation "measure (\<lambda>(led_id, priv, io). NAGA_NR_LEDS - led_id)") auto

declare naga_do_commit_leds.simps [simp del]

text \<open>The \<^verbatim>\<open>switch (priv->frequency)\<close>: the device code, or none in the default case.\<close>

definition freq_code :: "int \<Rightarrow> u8 option" where
  "freq_code f =
     (if f = RAZER_MOUSE_FREQ_125HZ then Some 8
      else if f = RAZER_MOUSE_FREQ_500HZ then Some 2
      else if f = RAZER_MOUSE_FREQ_1000HZ \<or> f = RAZER_MOUSE_FREQ_UNKNOWN then Some 1
      else None)"

definition naga_do_commit :: "naga_private \<Rightarrow> usb_io \<Rightarrow> (error + unit) \<times> usb_io" where
  "naga_do_commit priv io =
     (case call_command_init_resolution priv of
        None \<Rightarrow> (Inl FAULT, io)
      | Some cmd \<Rightarrow>
          (case naga_send_command cmd io of
             (err, _, io1) \<Rightarrow>
               if err \<noteq> 0 then (Inl (ECODE err), io1)
               else (case naga_do_commit_leds 0 priv io1 of
                       (err, io2) \<Rightarrow>
                         if err \<noteq> 0 then (Inl (ECODE err), io2)
                         else (case freq_code (frequency priv) of
                                 None \<Rightarrow> (Inl EINVAL, io2)
                               | Some freq \<Rightarrow>
                                   (case naga_send_command (freq_command freq) io2 of
                                      (err, _, io3) \<Rightarrow>
                                        if err \<noteq> 0 then (Inl (ECODE err), io3)
                                        else (Inr (), io3))))))"

definition naga_commit :: "int \<Rightarrow> razer_mouse \<Rightarrow> (error + unit) \<times> razer_mouse" where
  "naga_commit force m =
     (if claim_count m = 0 then (Inl EBUSY, m)
      else case drv_data m of
        None \<Rightarrow> (Inl FAULT, m)
      | Some priv \<Rightarrow>
          if commit_pending priv \<or> force \<noteq> 0 then
            (case naga_do_commit priv (usb m) of
               (Inl e, io') \<Rightarrow> (Inl e, m\<lparr>usb := io'\<rparr>)
             | (Inr _, io') \<Rightarrow>
                 (Inr (), m\<lparr>drv_data := Some (priv\<lparr>commit_pending := False\<rparr>), usb := io'\<rparr>))
          else (Inr (), m))"

subsection \<open>Mutators\<close>

definition naga_led_toggle :: "nat \<Rightarrow> razer_led_state \<Rightarrow> razer_mouse \<Rightarrow> (error + unit) \<times> razer_mouse" where
  "naga_led_toggle led_id new_state m =
     (if led_id \<ge> NAGA_NR_LEDS then (Inl EINVAL, m)
      else if new_state \<noteq> RAZER_LED_OFF \<and> new_state \<noteq> RAZER_LED_ON then (Inl EINVAL, m)
      else case drv_data m of
        None \<Rightarrow> (Inl FAULT, m)
      | Some priv \<Rightarrow>
          if led_states priv ! led_id = RAZER_LED_UNKNOWN then (Inl EINVAL, m)
          else if claim_count m = 0 then (Inl EBUSY, m)
          else (Inr (), m\<lparr>drv_data := Some (priv\<lparr>led_states := (led_states priv)[led_id := new_state],
                                                  commit_pending := True\<rparr>)\<rparr>))"

definition naga_get_freq :: "razer_mouse \<Rightarrow> int option" where
  "naga_get_freq m = map_option frequency (drv_data m)"

definition naga_set_freq :: "int \<Rightarrow> razer_mouse \<Rightarrow> (error + unit) \<times> razer_mouse" where
  "naga_set_freq freq m =
     (case drv_data m of
        None \<Rightarrow> (Inl FAULT, m)
      | Some priv \<Rightarrow>
          if claim_count m = 0 then (Inl EBUSY, m)
          else (Inr (), m\<lparr>drv_data := Some (priv\<lparr>frequency := freq, commit_pending := True\<rparr>)\<rparr>))"

text \<open>
  \<^verbatim>\<open>naga_get_dpimapping\<close>: the axis argument is a pointer (\<open>None\<close> when null); the result is
  a pointer into the mapping table, null for an axis that is neither 0 nor 1.
\<close>

definition naga_get_dpimapping :: "razer_axis option \<Rightarrow> razer_mouse \<Rightarrow> error + nat option" where
  "naga_get_dpimapping axis m =
     (case drv_data m of
        None \<Rightarrow> Inl FAULT
      | Some priv \<Rightarrow>
          (case (case axis of None \<Rightarrow> (if 0 < length (axes priv) then Some (axes priv ! 0) else None)
                            | Some a \<Rightarrow> Some a) of
             None \<Rightarrow> Inl FAULT
           | Some a \<Rightarrow>
               if axis_id a = 0 then Inr (cur_dpimapping_X priv)
               else if axis_id a = 1 then Inr (cur_dpimapping_Y priv)
               else Inr None))"

definition naga_set_dpimapping ::
  "razer_axis option \<Rightarrow> nat option \<Rightarrow> razer_mouse \<Rightarrow> (error + unit) \<times> razer_mouse" where
  "naga_set_dpimapping axis d m =
     (case drv_data m of
        None \<Rightarrow> (Inl FAULT, m)
      | Some priv \<Rightarrow>
          if claim_count m = 0 then (Inl EBUSY, m)
          else (case axis of
                  Some a \<Rightarrow>
                    if axis_id a \<ge> NAGA_NR_AXES then (Inl EINVAL, m)
                    else if axis_id a = 0 then
                      (Inr (), m\<lparr>drv_data := Some (priv\<lparr>cur_dpimapping_X := d,
                                                             commit_pending := True\<rparr>)\<rparr>)
                    else if axis_id a = 1 then
                      (Inr (), m\<lparr>drv_data := Some (priv\<lparr>cur_dpimapping_Y := d,
                                                             commit_pending := True\<rparr>)\<rparr>)
                    else (Inl EINVAL, m)
                | None \<Rightarrow>
                    (Inr (), m\<lparr>drv_data := Some (priv\<lparr>cur_dpimapping_X := d,
                                                           cur_dpimapping_Y := d,
                                                           commit_pending := True\<rparr>)\<rparr>)))"

subsection \<open>Attach\<close>

text \<open>
  What \<^verbatim>\<open>razer_naga_init\<close> obtains from outside this file: the product id of the device
  descriptor (\<open>None\<close> when \<^verbatim>\<open>libusb_get_device_descriptor\<close> fails), whether \<^verbatim>\<open>zalloc\<close>
  succeeds, and the return values of \<^verbatim>\<open>razer_usb_add_used_interface\<close> and of the claim.
\<close>

record attach_env =
  get_device_descriptor :: "u16 option"
  zalloc_ok :: bool
  add_used_interface :: int
  claim_result :: int

text \<open>
  The product-id macros come from hw_naga.h, which is not under src/, and the spec gives no
  numbers for them; they are a parameter of the model.
\<close>

record naga_product_ids =
  RAZER_NAGA_PID_CLASSIC :: u16
  RAZER_NAGA_PID_EPIC :: u16
  RAZER_NAGA_PID_2012 :: u16
  RAZER_NAGA_PID_HEX :: u16
  RAZER_NAGA_PID_HEX_V2 :: u16
  RAZER_NAGA_PID_2014 :: u16

text \<open>
  Modelled from the spec: \<^verbatim>\<open>m->claim\<close> and \<^verbatim>\<open>m->release\<close>, function pointers that are set
  outside src/ (``an exclusive-claim counter inherited from the underlying device handle'';
  ``claim/release brackets the entire attach sequence''). A successful claim counts the
  claim up, a release counts it down.
\<close>

definition mouse_claim :: "int \<Rightarrow> razer_mouse \<Rightarrow> int \<times> razer_mouse" where
  "mouse_claim err m = (if err \<noteq> 0 then (err, m) else (0, m\<lparr>claim_count := claim_count m + 1\<rparr>))"

definition mouse_release :: "razer_mouse \<Rightarrow> razer_mouse" where
  "mouse_release m = m\<lparr>claim_count := claim_count m - 1\<rparr>"

text \<open>
  Modelled from the spec: \<^verbatim>\<open>razer_init_axes\<close>, which is not under src/ (``a fixed list of
  axis descriptors (name, whether DPI mapping is independently settable per axis)'';
  ``Axis id 0 and 1 map to independently-settable X/Y DPI mappings''). The call passes the
  names X, Y, Scroll, the first two with the flag for independent DPI mappings.
\<close>

definition razer_init_axes :: "razer_axis list" where
  "razer_init_axes =
     [\<lparr>axis_id = 0, axis_name = ''X'', independent_dpimapping = True\<rparr>,
      \<lparr>axis_id = 1, axis_name = ''Y'', independent_dpimapping = True\<rparr>,
      \<lparr>axis_id = 2, axis_name = ''Scroll'', independent_dpimapping = False\<rparr>]"

text \<open>The private struct as \<^verbatim>\<open>zalloc\<close> returns it: every byte zero.\<close>

definition zalloc_naga_private :: naga_private where
  "zalloc_naga_private =
     \<lparr>fw_version = 0,
      led_states = replicate NAGA_NR_LEDS RAZER_LED_OFF,
      frequency = 0,
      cur_dpimapping_X = None,
      cur_dpimapping_Y = None,
      dpimapping = replicate NAGA_NR_DPIMAPPINGS \<lparr>nr = 0, res_DIM_0 = 0, dimension_mask = 0\<rparr>,
      nb_dpimappings = 0,
      command_init_resolution = None,
      axes = replicate NAGA_NR_AXES \<lparr>axis_id = 0, axis_name = [], independent_dpimapping = False\<rparr>,
      commit_pending = False\<rparr>"

definition NAGA_FW :: "u16 \<Rightarrow> u16 \<Rightarrow> u16" where
  "NAGA_FW major minor = push_bit 8 major OR minor"

text \<open>The loop over the mapping slots in \<^verbatim>\<open>razer_naga_init\<close>.\<close>

function init_dpimappings :: "nat \<Rightarrow> naga_private \<Rightarrow> naga_private" where
  "init_dpimappings i priv =
     (if i < nb_dpimappings priv then
        (let r = (int i + 1) * 100;
             priv1 = priv\<lparr>dpimapping :=
                       (dpimapping priv)[i := \<lparr>nr = i, res_DIM_0 = r, dimension_mask = 1\<rparr>]\<rparr>;
             priv2 = (if r = 1000
                      then priv1\<lparr>cur_dpimapping_X := Some i, cur_dpimapping_Y := Some i\<rparr>
                      else priv1)
         in init_dpimappings (i + 1) priv2)
      else priv)"
  by pat_completeness auto
termination
  by (relation "measure (\<lambda>(i, priv). nb_dpimappings priv - i)") auto

declare init_dpimappings.simps [simp del]

text \<open>
  The assignments of \<^verbatim>\<open>razer_naga_init\<close> between the firmware check and the model switch:
  default frequency and LED states, slot count and resolution builder, the mapping table, the
  axes.
\<close>

definition init_settings :: "naga_product_ids \<Rightarrow> u16 \<Rightarrow> naga_private \<Rightarrow> naga_private" where
  "init_settings ids idProduct priv =
     (let priv = priv\<lparr>frequency := RAZER_MOUSE_FREQ_1000HZ\<rparr>;
          priv = priv\<lparr>led_states := (led_states priv)[NAGA_LED_SCROLL := RAZER_LED_ON]\<rparr>;
          priv = priv\<lparr>led_states := (led_states priv)[NAGA_LED_LOGO := RAZER_LED_ON]\<rparr>;
          priv = (if idProduct = RAZER_NAGA_PID_2014 ids
                  then priv\<lparr>led_states := (led_states priv)[NAGA_LED_THUMB_GRID := RAZER_LED_ON]\<rparr>
                  else priv\<lparr>led_states := (led_states priv)[NAGA_LED_THUMB_GRID := RAZER_LED_UNKNOWN]\<rparr>);
          priv = (if idProduct = RAZER_NAGA_PID_2014 ids
                  then priv\<lparr>nb_dpimappings := NAGA_8200_NR_DPIMAPPINGS,
                            command_init_resolution := Some Naga_command_init_resolution_8200\<rparr>
                  else priv\<lparr>nb_dpimappings := NAGA_5600_NR_DPIMAPPINGS,
                            command_init_resolution := Some Naga_command_init_resolution_5600\<rparr>);
          priv = init_dpimappings 0 priv
      in priv\<lparr>axes := razer_init_axes\<rparr>)"

text \<open>The \<^verbatim>\<open>switch (desc.idProduct)\<close> that picks the model name.\<close>

definition model_name :: "naga_product_ids \<Rightarrow> u16 \<Rightarrow> string" where
  "model_name ids idProduct =
     (if idProduct = RAZER_NAGA_PID_CLASSIC ids then ''Naga''
      else if idProduct = RAZER_NAGA_PID_EPIC ids then ''Naga Epic''
      else if idProduct = RAZER_NAGA_PID_2012 ids then ''Naga 2012''
      else if idProduct = RAZER_NAGA_PID_HEX ids then ''Naga Hex''
      else if idProduct = RAZER_NAGA_PID_HEX_V2 ids then ''Naga Hex v2''
      else if idProduct = RAZER_NAGA_PID_2014 ids then ''Naga 2014''
      else ''Naga'')"

text \<open>
  \<^verbatim>\<open>razer_naga_init\<close>. The labels \<^verbatim>\<open>err_release\<close> and \<^verbatim>\<open>err_free\<close> are the two
  ways out on failure: release the claim and free the private struct, or only free it.
\<close>

definition err_free :: "error \<Rightarrow> razer_mouse \<Rightarrow> (error + unit) \<times> razer_mouse" where
  "err_free e m = (Inl e, m\<lparr>drv_data := None\<rparr>)"

definition err_release :: "error \<Rightarrow> razer_mouse \<Rightarrow> (error + unit) \<times> razer_mouse" where
  "err_release e m = err_free e (mouse_release m)"

definition razer_naga_init ::
  "naga_product_ids \<Rightarrow> attach_env \<Rightarrow> razer_mouse \<Rightarrow> (error + unit) \<times> razer_mouse" where
  "razer_naga_init ids env m =
     (case get_device_descriptor env of
        None \<Rightarrow> (Inl EIO, m)
      | Some idProduct \<Rightarrow>
          if \<not> zalloc_ok env then (Inl ENOMEM, m)
          else
            (let m = m\<lparr>drv_data := Some zalloc_naga_private\<rparr> in
             if add_used_interface env \<noteq> 0 then err_free (ECODE (add_used_interface env)) m
             else
               (case mouse_claim (claim_result env) m of
                  (err, m) \<Rightarrow>
                    if err \<noteq> 0 then err_free (ECODE err) m
                    else
                      (case naga_read_fw_ver (usb m) of
                         (Inl e, io) \<Rightarrow> err_release e (m\<lparr>usb := io\<rparr>)
                       | (Inr fwver, io) \<Rightarrow>
                           (let m = m\<lparr>usb := io\<rparr>;
                                priv = zalloc_naga_private\<lparr>fw_version := fwver\<rparr>;
                                m = (if idProduct = RAZER_NAGA_PID_EPIC ids
                                        \<and> fw_version priv < NAGA_FW 0x01 0x04
                                     then m\<lparr>flags := insert RAZER_MOUSEFLG_SUGGESTFWUP (flags m)\<rparr>
                                     else m);
                                priv = init_settings ids idProduct priv;
                                m = m\<lparr>model := model_name ids idProduct, drv_data := Some priv\<rparr>
                            in case naga_do_commit priv (usb m) of
                                 (Inl e, io) \<Rightarrow> err_release e (m\<lparr>usb := io\<rparr>)
                               | (Inr _, io) \<Rightarrow> (Inr (), mouse_release (m\<lparr>usb := io\<rparr>)))))))"

subsection \<open>One probe attempt\<close>

text \<open>
  One pass through the body of the loop of \<^verbatim>\<open>naga_read_fw_ver\<close>, seen on its own:
  \<open>fw_attempt\<close> sends the query and yields the version when the exchange returned 0 and
  the version has a non-zero high byte; \<open>fw_retry\<close> is the failed pass, query followed by
  \<^verbatim>\<open>razer_msleep(250)\<close>.
\<close>

definition fw_attempt :: "usb_io \<Rightarrow> u16 option \<times> usb_io" where
  "fw_attempt io =
     (case naga_send_command fw_ver_command io of
        (err, cmd, io') \<Rightarrow>
          (if err = 0 \<and> load_be16 off_values cmd AND 0xFF00 \<noteq> 0
           then Some (load_be16 off_values cmd) else None, io'))"

definition fw_retry :: "usb_io \<Rightarrow> usb_io" where
  "fw_retry io = razer_msleep 250 (snd (fw_attempt io))"

subsection \<open>The commit sequence in the spec's words\<close>

text \<open>
  Written after the spec, not the source, to compare \<^verbatim>\<open>naga_do_commit\<close> with: the list
  of commands a commit is to send (the resolution command, one LED command per LED that is
  not unsupported, the frequency command when the stored frequency has a device code), and
  the sending of a list of commands one after the other, stopping at the first exchange that
  fails with that exchange's error.
\<close>

definition spec_led_commands :: "naga_private \<Rightarrow> naga_command list" where
  "spec_led_commands priv =
     map (\<lambda>i. led_command i (led_states priv ! i))
       (filter (\<lambda>i. led_states priv ! i \<noteq> RAZER_LED_UNKNOWN) [0..<NAGA_NR_LEDS])"

definition spec_commit_commands :: "naga_private \<Rightarrow> naga_command \<Rightarrow> naga_command list" where
  "spec_commit_commands priv res_cmd =
     res_cmd # spec_led_commands priv
       @ (case freq_code (frequency priv) of None \<Rightarrow> [] | Some c \<Rightarrow> [freq_command c])"

fun spec_send_in_order :: "naga_command list \<Rightarrow> usb_io \<Rightarrow> int \<times> usb_io" where
  "spec_send_in_order [] io = (0, io)"
| "spec_send_in_order (c # cs) io =
     (case naga_send_command c io of
        (err, _, io') \<Rightarrow> if err \<noteq> 0 then (err, io') else spec_send_in_order cs io')"

subsection \<open>Runs of operations\<close>

text \<open>
  The entry points \<^verbatim>\<open>razer_naga_init\<close> installs on the mouse and its profile, plus claim
  and release, as one type, so that a property can be stated for every sequence of calls.
\<close>

datatype naga_op =
    Commit int
  | Led_toggle nat razer_led_state
  | Set_freq int
  | Set_dpimapping "razer_axis option" "nat option"
  | Claim int
  | Release

definition run_op :: "naga_op \<Rightarrow> razer_mouse \<Rightarrow> razer_mouse" where
  "run_op x m =
     (case x of
        Commit force \<Rightarrow> snd (naga_commit force m)
      | Led_toggle led_id new_state \<Rightarrow> snd (naga_led_toggle led_id new_state m)
      | Set_freq freq \<Rightarrow> snd (naga_set_freq freq m)
      | Set_dpimapping axis d \<Rightarrow> snd (naga_set_dpimapping axis d m)
      | Claim err \<Rightarrow> snd (mouse_claim err m)
      | Release \<Rightarrow> mouse_release m)"

fun run_ops :: "naga_op list \<Rightarrow> razer_mouse \<Rightarrow> razer_mouse" where
  "run_ops [] m = m"
| "run_ops (x # xs) m = run_ops xs (run_op x m)"

definition led_unsupported :: "razer_mouse \<Rightarrow> nat \<Rightarrow> bool" where
  "led_unsupported m led_id =
     (case drv_data m of
        None \<Rightarrow> False
      | Some priv \<Rightarrow> led_states priv ! led_id = RAZER_LED_UNKNOWN)"

subsection \<open>The checksum in the spec's words\<close>

text \<open>
  Written after the spec, not the source: the checksum of a packet as the XOR over the byte
  range \<open>[2, size - 4)\<close>, and the property that every packet written in a trace is 90
  bytes long and carries that checksum in its checksum byte.
\<close>

definition spec_checksum :: "naga_command \<Rightarrow> u8" where
  "spec_checksum packet = foldl (XOR) 0 (map ((!) packet) [2..<sizeof_naga_command - 4])"

definition checksums_ok :: "io_event list \<Rightarrow> bool" where
  "checksums_ok evs =
     list_all (\<lambda>p. length p = sizeof_naga_command \<and> p ! off_checksum = spec_checksum p)
       (written evs)"

subsection \<open>Views of the driver state and of the trace\<close>

text \<open>The trace without its read events: the packets sent and the sleeps, in order.\<close>

definition no_reads :: "io_event list \<Rightarrow> io_event list" where
  "no_reads evs = filter (\<lambda>e. e \<noteq> Usb_read) evs"

text \<open>
  A mouse is ready for a commit when the pointers \<^verbatim>\<open>naga_do_commit\<close> follows without a
  check are good: the resolution builder is set and both current mappings are slots of the
  mapping table. An operation keeps to the table when, if it sets a mapping, it sets a slot
  of the table.
\<close>

definition commit_ready :: "razer_mouse \<Rightarrow> bool" where
  "commit_ready m =
     (case drv_data m of
        None \<Rightarrow> False
      | Some priv \<Rightarrow>
          command_init_resolution priv \<noteq> None
          \<and> deref_dpimapping priv (cur_dpimapping_X priv) \<noteq> None
          \<and> deref_dpimapping priv (cur_dpimapping_Y priv) \<noteq> None)"

fun table_slot_op :: "razer_mouse \<Rightarrow> naga_op \<Rightarrow> bool" where
  "table_slot_op m (Set_dpimapping axis d) =
     (case (drv_data m, d) of
        (Some priv, Some j) \<Rightarrow> j < length (dpimapping priv)
      | _ \<Rightarrow> False)"
| "table_slot_op m _ = True"

subsection \<open>Example devices\<close>

text \<open>
  Concrete inputs for the examples below: a set of product ids, a device that answers every
  transfer in full with firmware version 1.04 in the value bytes, a device on which every
  transfer fails, a device that fails four transfers before it answers, and the state of an
  attached Naga Classic.
\<close>

definition example_ids :: naga_product_ids where
  "example_ids =
     \<lparr>RAZER_NAGA_PID_CLASSIC = 0x0015, RAZER_NAGA_PID_EPIC = 0x001F,
      RAZER_NAGA_PID_2012 = 0x002E, RAZER_NAGA_PID_HEX = 0x0036,
      RAZER_NAGA_PID_HEX_V2 = 0x0041, RAZER_NAGA_PID_2014 = 0x0040\<rparr>"

definition fw_reply :: "u8 list" where
  "fw_reply = naga_command_init[off_values := 1, off_values + 1 := 4]"

definition good_device :: "nat \<Rightarrow> usb_reply" where
  "good_device n = \<lparr>ret = 90, data = fw_reply\<rparr>"

definition dead_device :: "nat \<Rightarrow> usb_reply" where
  "dead_device n = \<lparr>ret = - 1, data = []\<rparr>"

definition slow_device :: "nat \<Rightarrow> usb_reply" where
  "slow_device n = (if n < 4 then \<lparr>ret = - 1, data = []\<rparr> else \<lparr>ret = 90, data = fw_reply\<rparr>)"

definition usb_start :: "(nat \<Rightarrow> usb_reply) \<Rightarrow> usb_io" where
  "usb_start dev = \<lparr>device = dev, transfers = 0, trace = []\<rparr>"

definition classic_priv :: naga_private where
  "classic_priv = init_settings example_ids 0x0015 (zalloc_naga_private\<lparr>fw_version := 0x0104\<rparr>)"

definition classic_mouse :: "nat \<Rightarrow> (nat \<Rightarrow> usb_reply) \<Rightarrow> razer_mouse" where
  "classic_mouse claims dev =
     \<lparr>claim_count = claims, flags = {}, model = ''Naga'',
      drv_data = Some classic_priv, usb = usb_start dev\<rparr>"

definition unattached_mouse :: "(nat \<Rightarrow> usb_reply) \<Rightarrow> razer_mouse" where
  "unattached_mouse dev =
     \<lparr>claim_count = 0, flags = {}, model = [], drv_data = None, usb = usb_start dev\<rparr>"

definition attach_ok :: "u16 \<Rightarrow> attach_env" where
  "attach_ok pid =
     \<lparr>get_device_descriptor = Some pid, zalloc_ok = True, add_used_interface = 0,
      claim_result = 0\<rparr>"

text \<open>The resolution command of the attached Naga Classic: DPI 1000 on both axes.\<close>

definition classic_res_cmd :: naga_command where
  "classic_res_cmd =
     (store_be16 off_request 0x0401 (store_be16 off_command 0x0003 naga_command_init))
       [off_values := 36, off_values + 1 := 36]"

section \<open>Properties\<close>

subsection \<open>The mapping-table loop\<close>

lemma init_dpimappings_other [simp]:
  "led_states (init_dpimappings i p) = led_states p"
  "frequency (init_dpimappings i p) = frequency p"
  "nb_dpimappings (init_dpimappings i p) = nb_dpimappings p"
  "command_init_resolution (init_dpimappings i p) = command_init_resolution p"
  "commit_pending (init_dpimappings i p) = commit_pending p"
  "fw_version (init_dpimappings i p) = fw_version p"
  "axes (init_dpimappings i p) = axes p"
  "length (dpimapping (init_dpimappings i p)) = length (dpimapping p)"
  by (induction i p rule: init_dpimappings.induct; subst init_dpimappings.simps;
      simp add: Let_def)+

lemma init_dpimappings_slot:
  "nb_dpimappings p \<le> length (dpimapping p) \<Longrightarrow> j < nb_dpimappings p \<Longrightarrow>
     dpimapping (init_dpimappings i p) ! j =
       (if i \<le> j then \<lparr>nr = j, res_DIM_0 = (int j + 1) * 100, dimension_mask = 1\<rparr>
        else dpimapping p ! j)"
proof (induction i p rule: init_dpimappings.induct)
  case (1 i priv)
  show ?case
  proof (cases "i < nb_dpimappings priv")
    case True
    then show ?thesis using 1
      by (subst init_dpimappings.simps) (auto simp add: Let_def nth_list_update)
  next
    case False
    then show ?thesis using 1 by (subst init_dpimappings.simps) auto
  qed
qed

lemma init_dpimappings_cur:
  "cur_dpimapping_X (init_dpimappings i p) =
     (if i \<le> 9 \<and> 9 < nb_dpimappings p then Some 9 else cur_dpimapping_X p)"
  "cur_dpimapping_Y (init_dpimappings i p) =
     (if i \<le> 9 \<and> 9 < nb_dpimappings p then Some 9 else cur_dpimapping_Y p)"
  by (induction i p rule: init_dpimappings.induct; subst init_dpimappings.simps;
      auto simp add: Let_def)+

lemma init_settings_fields:
  "frequency (init_settings ids pid p) = RAZER_MOUSE_FREQ_1000HZ"
  "commit_pending (init_settings ids pid p) = commit_pending p"
  "fw_version (init_settings ids pid p) = fw_version p"
  "axes (init_settings ids pid p) = razer_init_axes"
  "nb_dpimappings (init_settings ids pid p) =
     (if pid = RAZER_NAGA_PID_2014 ids then 82 else 56)"
  "command_init_resolution (init_settings ids pid p) =
     (if pid = RAZER_NAGA_PID_2014 ids then Some Naga_command_init_resolution_8200
      else Some Naga_command_init_resolution_5600)"
  "cur_dpimapping_X (init_settings ids pid p) = Some 9"
  "cur_dpimapping_Y (init_settings ids pid p) = Some 9"
  "length (dpimapping (init_settings ids pid p)) = length (dpimapping p)"
  by (simp_all add: init_settings_def Let_def init_dpimappings_cur
      NAGA_5600_NR_DPIMAPPINGS_def NAGA_8200_NR_DPIMAPPINGS_def)

lemma init_settings_leds:
  "length (led_states p) = 3 \<Longrightarrow>
   led_states (init_settings ids pid p) =
     [RAZER_LED_ON, RAZER_LED_ON,
      if pid = RAZER_NAGA_PID_2014 ids then RAZER_LED_ON else RAZER_LED_UNKNOWN]"
  by (cases "led_states p" rule: list.exhaust; simp add: init_settings_def Let_def
        NAGA_LED_SCROLL_def NAGA_LED_LOGO_def NAGA_LED_THUMB_GRID_def;
      (rename_tac a as, case_tac as; simp; rename_tac b bs, case_tac bs; simp))

lemma init_settings_slot:
  "length (dpimapping p) = 82 \<Longrightarrow>
   j < nb_dpimappings (init_settings ids pid p) \<Longrightarrow>
   dpimapping (init_settings ids pid p) ! j =
     \<lparr>nr = j, res_DIM_0 = (int j + 1) * 100, dimension_mask = 1\<rparr>"
  by (auto simp add: init_settings_def Let_def init_dpimappings_slot
      NAGA_5600_NR_DPIMAPPINGS_def NAGA_8200_NR_DPIMAPPINGS_def split: if_splits)

lemma zalloc_lengths [simp]:
  "length (led_states zalloc_naga_private) = 3"
  "length (dpimapping zalloc_naga_private) = 82"
  "commit_pending zalloc_naga_private = False"
  by (simp_all add: zalloc_naga_private_def NAGA_NR_LEDS_def NAGA_NR_DPIMAPPINGS_def
      NAGA_8200_NR_DPIMAPPINGS_def)

lemma classic_priv_fields:
  "led_states classic_priv = [RAZER_LED_ON, RAZER_LED_ON, RAZER_LED_UNKNOWN]"
  "frequency classic_priv = 1000"
  "commit_pending classic_priv = False"
  "cur_dpimapping_X classic_priv = Some 9"
  "cur_dpimapping_Y classic_priv = Some 9"
  "command_init_resolution classic_priv = Some Naga_command_init_resolution_5600"
  "nb_dpimappings classic_priv = 56"
  "length (dpimapping classic_priv) = 82"
  "dpimapping classic_priv ! 9 = \<lparr>nr = 9, res_DIM_0 = 1000, dimension_mask = 1\<rparr>"
  by (simp_all add: classic_priv_def init_settings_fields init_settings_leds
      init_settings_slot example_ids_def RAZER_MOUSE_FREQ_1000HZ_def)

subsection \<open>Calls on an unclaimed device\<close>

text \<open>
  C5 (as amended). On a device whose claim count is zero, \<^verbatim>\<open>naga_set_freq\<close>,
  \<^verbatim>\<open>naga_set_dpimapping\<close> and \<^verbatim>\<open>naga_commit\<close> return the busy error, and
  \<^verbatim>\<open>naga_led_toggle\<close> returns the busy error unless its arguments are invalid (LED id
  out of range, a new state that is neither on nor off, or an unsupported LED), in which case
  it returns invalid-argument: it validates before it looks at the claim count. In every
  case the mouse, and with it the driver state and the transport trace, is returned as it was,
  so no transport call is made.
\<close>

theorem unclaimed_rejected:
  assumes "claim_count m = 0" and "drv_data m = Some priv"
  shows "naga_set_freq freq m = (Inl EBUSY, m)
       \<and> naga_set_dpimapping axis d m = (Inl EBUSY, m)
       \<and> naga_commit force m = (Inl EBUSY, m)
       \<and> naga_led_toggle led_id new_state m =
           (Inl (if led_id \<ge> NAGA_NR_LEDS \<or> new_state = RAZER_LED_UNKNOWN
                    \<or> led_states priv ! led_id = RAZER_LED_UNKNOWN
                 then EINVAL else EBUSY), m)
       \<and> (\<forall>r \<in> {naga_set_freq freq m, naga_set_dpimapping axis d m, naga_commit force m,
                   naga_led_toggle led_id new_state m}.
            drv_data (snd r) = drv_data m
            \<and> transport_calls (trace (usb (snd r))) = transport_calls (trace (usb m)))"
  using assms
  by (cases new_state)
     (simp_all add: naga_set_freq_def naga_set_dpimapping_def naga_commit_def naga_led_toggle_def)

theorem unclaimed_rejected_witness:
  "claim_count (classic_mouse 0 good_device) = 0
   \<and> drv_data (classic_mouse 0 good_device) = Some classic_priv
   \<and> naga_set_freq 125 (classic_mouse 0 good_device) = (Inl EBUSY, classic_mouse 0 good_device)
   \<and> naga_set_dpimapping None (Some 4) (classic_mouse 0 good_device)
        = (Inl EBUSY, classic_mouse 0 good_device)
   \<and> naga_commit 1 (classic_mouse 0 good_device) = (Inl EBUSY, classic_mouse 0 good_device)
   \<and> naga_led_toggle NAGA_LED_SCROLL RAZER_LED_OFF (classic_mouse 0 good_device)
        = (Inl EBUSY, classic_mouse 0 good_device)"
  using unclaimed_rejected [of "classic_mouse 0 good_device" classic_priv 125 None "Some 4" 1
      NAGA_LED_SCROLL RAZER_LED_OFF]
  by (simp add: classic_mouse_def classic_priv_fields NAGA_LED_SCROLL_def NAGA_NR_LEDS_def)

text \<open>
  C5 as stated fails: toggling the thumb-grid LED of an unclaimed Naga Classic, where that LED
  is unsupported, returns invalid-argument, not busy.
\<close>

theorem unclaimed_led_toggle_counterexample:
  "claim_count (classic_mouse 0 good_device) = 0
   \<and> naga_led_toggle NAGA_LED_THUMB_GRID RAZER_LED_ON (classic_mouse 0 good_device)
        = (Inl EINVAL, classic_mouse 0 good_device)"
  by (simp add: naga_led_toggle_def classic_mouse_def classic_priv_fields
      NAGA_LED_THUMB_GRID_def NAGA_NR_LEDS_def)

subsection \<open>Unsupported LEDs\<close>

lemma naga_commit_leds:
  "led_unsupported (snd (naga_commit force m)) i = led_unsupported m i"
  by (cases "drv_data m"; cases "naga_do_commit (the (drv_data m)) (usb m)")
     (auto simp: naga_commit_def led_unsupported_def split: sum.splits)

lemma naga_led_toggle_leds:
  "led_unsupported (snd (naga_led_toggle led_id s m)) i = led_unsupported m i"
  by (cases "i = led_id"; cases "led_id < length (led_states (the (drv_data m)))")
     (auto simp: naga_led_toggle_def led_unsupported_def list_update_beyond not_less
           split: option.splits)

lemma run_op_leds: "led_unsupported (run_op x m) i = led_unsupported m i"
proof (cases x)
  case (Commit force)
  then show ?thesis by (simp add: run_op_def naga_commit_leds)
next
  case (Led_toggle led_id s)
  then show ?thesis by (simp add: run_op_def naga_led_toggle_leds)
next
  case (Set_freq f)
  then show ?thesis
    by (auto simp: run_op_def naga_set_freq_def led_unsupported_def split: option.splits)
next
  case (Set_dpimapping a d)
  then show ?thesis
    by (auto simp: run_op_def naga_set_dpimapping_def led_unsupported_def split: option.splits)
next
  case (Claim e)
  then show ?thesis by (simp add: run_op_def mouse_claim_def led_unsupported_def)
next
  case Release
  then show ?thesis by (simp add: run_op_def mouse_release_def led_unsupported_def)
qed

lemma run_ops_leds: "led_unsupported (run_ops xs m) i = led_unsupported m i"
  by (induction xs arbitrary: m) (simp_all add: run_op_leds)

text \<open>
  C7. Toggling a LED whose stored state is \<open>RAZER_LED_UNKNOWN\<close> returns invalid-argument
  and returns the mouse as it was, so neither the LED array nor \<open>commit_pending\<close> changes.
  No sequence of commits, LED toggles, frequency or mapping changes, claims and releases
  changes which LEDs are unsupported: the marker is neither removed nor given to another LED
  after \<^verbatim>\<open>razer_naga_init\<close> has set it.
\<close>

theorem unsupported_led_fixed:
  "(drv_data m = Some priv \<and> led_states priv ! led_id = RAZER_LED_UNKNOWN \<longrightarrow>
      naga_led_toggle led_id new_state m = (Inl EINVAL, m))
   \<and> led_unsupported (run_ops xs m) i = led_unsupported m i"
  by (simp add: run_ops_leds naga_led_toggle_def)

theorem unsupported_led_fixed_witness:
  "drv_data (classic_mouse 1 good_device) = Some classic_priv
   \<and> led_states classic_priv ! NAGA_LED_THUMB_GRID = RAZER_LED_UNKNOWN
   \<and> naga_led_toggle NAGA_LED_THUMB_GRID RAZER_LED_ON (classic_mouse 1 good_device)
       = (Inl EINVAL, classic_mouse 1 good_device)
   \<and> led_unsupported (classic_mouse 1 good_device) NAGA_LED_THUMB_GRID
   \<and> led_unsupported
        (run_ops [Led_toggle NAGA_LED_SCROLL RAZER_LED_OFF,
                  Led_toggle NAGA_LED_THUMB_GRID RAZER_LED_ON, Set_freq 125, Commit 0]
           (classic_mouse 1 good_device)) NAGA_LED_THUMB_GRID"
  using unsupported_led_fixed [of "classic_mouse 1 good_device" classic_priv NAGA_LED_THUMB_GRID
      RAZER_LED_ON
      "[Led_toggle NAGA_LED_SCROLL RAZER_LED_OFF,
        Led_toggle NAGA_LED_THUMB_GRID RAZER_LED_ON, Set_freq 125, Commit 0]"
      NAGA_LED_THUMB_GRID]
  by (simp add: classic_mouse_def classic_priv_fields NAGA_LED_THUMB_GRID_def led_unsupported_def)

subsection \<open>Setting a DPI mapping\<close>

text \<open>
  C9 (as amended). On a claimed device \<^verbatim>\<open>naga_set_dpimapping\<close> with axis id 0 sets only the
  X mapping, with axis id 1 only the Y mapping, and with a null axis both; each of these
  succeeds and sets \<open>commit_pending\<close>. With any other axis id (2 or more) it returns
  invalid-argument and changes nothing.
\<close>

theorem set_dpimapping_axes:
  assumes "claim_count m \<noteq> 0" and "drv_data m = Some priv"
  shows "(axis_id a = 0 \<longrightarrow> naga_set_dpimapping (Some a) d m =
            (Inr (), m\<lparr>drv_data := Some (priv\<lparr>cur_dpimapping_X := d, commit_pending := True\<rparr>)\<rparr>))
       \<and> (axis_id a = 1 \<longrightarrow> naga_set_dpimapping (Some a) d m =
            (Inr (), m\<lparr>drv_data := Some (priv\<lparr>cur_dpimapping_Y := d, commit_pending := True\<rparr>)\<rparr>))
       \<and> naga_set_dpimapping None d m =
            (Inr (), m\<lparr>drv_data := Some (priv\<lparr>cur_dpimapping_X := d, cur_dpimapping_Y := d,
                                                 commit_pending := True\<rparr>)\<rparr>)
       \<and> (axis_id a \<ge> 2 \<longrightarrow> naga_set_dpimapping (Some a) d m = (Inl EINVAL, m))"
  using assms by (auto simp: naga_set_dpimapping_def NAGA_NR_AXES_def)

theorem set_dpimapping_axes_witness:
  "claim_count (classic_mouse 1 good_device) \<noteq> 0
   \<and> drv_data (classic_mouse 1 good_device) = Some classic_priv
   \<and> naga_set_dpimapping (Some (razer_init_axes ! 0)) (Some 4) (classic_mouse 1 good_device) =
       (Inr (), (classic_mouse 1 good_device)
          \<lparr>drv_data := Some (classic_priv\<lparr>cur_dpimapping_X := Some 4, commit_pending := True\<rparr>)\<rparr>)
   \<and> naga_set_dpimapping None (Some 4) (classic_mouse 1 good_device) =
       (Inr (), (classic_mouse 1 good_device)
          \<lparr>drv_data := Some (classic_priv\<lparr>cur_dpimapping_X := Some 4, cur_dpimapping_Y := Some 4,
                                           commit_pending := True\<rparr>)\<rparr>)"
  using set_dpimapping_axes [of "classic_mouse 1 good_device" classic_priv "razer_init_axes ! 0"
      "Some 4"]
  by (simp add: classic_mouse_def razer_init_axes_def)

text \<open>
  C9 as stated fails: with the scroll axis (id 2) of an attached, claimed Naga Classic the
  call returns invalid-argument and sets no mapping.
\<close>

theorem set_dpimapping_scroll_axis_counterexample:
  "claim_count (classic_mouse 1 good_device) \<noteq> 0
   \<and> axes classic_priv ! 2 = \<lparr>axis_id = 2, axis_name = ''Scroll'', independent_dpimapping = False\<rparr>
   \<and> naga_set_dpimapping (Some (axes classic_priv ! 2)) (Some 4) (classic_mouse 1 good_device)
        = (Inl EINVAL, classic_mouse 1 good_device)"
  by (simp add: naga_set_dpimapping_def classic_mouse_def classic_priv_def init_settings_fields
      razer_init_axes_def NAGA_NR_AXES_def)

text \<open>The getters read back what the setters stored.\<close>

lemma get_after_set_dpimapping:
  assumes "claim_count m \<noteq> 0" and "drv_data m = Some priv" and "axes priv = razer_init_axes"
  shows "naga_get_dpimapping (Some (axes priv ! 0)) (snd (naga_set_dpimapping (Some (axes priv ! 0)) d m)) = Inr d"
    and "naga_get_dpimapping (Some (axes priv ! 1)) (snd (naga_set_dpimapping (Some (axes priv ! 0)) d m))
           = Inr (cur_dpimapping_Y priv)"
    and "naga_get_dpimapping None (snd (naga_set_dpimapping None d m)) = Inr d"
    and "naga_get_dpimapping (Some (axes priv ! 2)) m = Inr None"
  using assms
  by (simp_all add: naga_get_dpimapping_def naga_set_dpimapping_def razer_init_axes_def
      NAGA_NR_AXES_def)

lemma get_after_set_freq:
  "claim_count m \<noteq> 0 \<Longrightarrow> drv_data m = Some priv \<Longrightarrow>
     naga_get_freq (snd (naga_set_freq f m)) = Some f"
  by (simp add: naga_get_freq_def naga_set_freq_def)

subsection \<open>What a command exchange does to the transport\<close>

lemma libusb_out_trace: 
  "libusb_control_transfer LIBUSB_ENDPOINT_OUT buf io = (r, b, io') \<Longrightarrow>
     trace io' = trace io @ [Usb_write buf] \<and> device io' = device io \<and> transfers io' = transfers io + 1"
  by (auto simp: libusb_control_transfer_def Let_def)

lemma written_append [simp]: "written (xs @ ys) = written xs @ written ys"
  by (induction xs rule: written.induct) auto

lemma transport_calls_append [simp]: "transport_calls (xs @ ys) = transport_calls xs + transport_calls ys"
  by (simp add: transport_calls_def)

lemma usb_read_loop_trace:
  "naga_usb_read_loop try err buf io = (r, b, io') \<Longrightarrow>
     \<exists>n \<le> 3 - try. trace io' = trace io @ replicate n Usb_read \<and> device io' = device io \<and> transfers io' = transfers io + n"
proof (induction "try" err buf io rule: naga_usb_read_loop.induct)
  case (1 "try" err buf io)
  show ?case
  proof (cases "try < 3")
    case False
    with "1.prems" show ?thesis by (simp add: naga_usb_read_loop.simps)
  next
    case True
    note tr = this
    obtain e1 b1 io1 where t: "libusb_control_transfer LIBUSB_ENDPOINT_IN buf io = (e1, b1, io1)"
      by (cases "libusb_control_transfer LIBUSB_ENDPOINT_IN buf io") auto
    then have io1: "trace io1 = trace io @ [Usb_read]" "device io1 = device io" "transfers io1 = transfers io + 1"
      by (auto simp: libusb_control_transfer_def Let_def)
    show ?thesis
    proof (cases "e1 \<ge> 0 \<and> e1 = int (length buf)")
      case True
      with "1.prems" t tr have "io' = io1" by (simp add: naga_usb_read_loop.simps[of "try"])
      with io1 tr show ?thesis by (intro exI[of _ 1]) simp
    next
      case False
      with "1.prems" t tr have "naga_usb_read_loop (try + 1) e1 b1 io1 = (r, b, io')"
        by (simp add: naga_usb_read_loop.simps[of "try"])
      from "1.IH"[OF tr t[symmetric] refl False this]
      obtain n where "n \<le> 3 - (try + 1)" "trace io' = trace io1 @ replicate n Usb_read"
        "device io' = device io1" "transfers io' = transfers io1 + n" by auto
      with io1 tr show ?thesis 
        by (intro exI[of _ "Suc n"]) (simp add: replicate_app_Cons_same)
    qed
  qed
qed

lemma send_command_trace:
  assumes "naga_send_command cmd io = (err, cmd', io')"
  shows "\<exists>n \<le> 3. trace io' = trace io @ Usb_write (sign cmd) # replicate n Usb_read
            \<and> device io' = device io \<and> transfers io' = transfers io + 1 + n"
proof -
  obtain e1 b1 io1 where t: "libusb_control_transfer LIBUSB_ENDPOINT_OUT (sign cmd) io = (e1, b1, io1)"
    by (cases "libusb_control_transfer LIBUSB_ENDPOINT_OUT (sign cmd) io") auto
  note io1 = libusb_out_trace[OF t]
  show ?thesis
  proof (cases "e1 < 0 \<or> e1 \<noteq> int (length (sign cmd))")
    case True
    then have w: "naga_usb_write (sign cmd) io = (e1, io1)" using t by (simp add: naga_usb_write_def)
    show ?thesis
    proof (cases "e1 = 0")
      case False
      with assms w have "io' = io1" by (simp add: naga_send_command_def Let_def)
      with io1 show ?thesis by (intro exI[of _ 0]) simp
    next
      case True
      obtain e2 b2 io2 where l: "naga_usb_read_loop 0 0 (sign cmd) io1 = (e2, b2, io2)"
        by (cases "naga_usb_read_loop 0 0 (sign cmd) io1") auto
      from usb_read_loop_trace[OF l] obtain n where n: "n \<le> 3" "trace io2 = trace io1 @ replicate n Usb_read"
        "device io2 = device io1" "transfers io2 = transfers io1 + n" by auto
      from assms w True l have "io' = io2" by (auto simp add: naga_send_command_def Let_def naga_usb_read_def split: if_splits)
      with n io1 show ?thesis by (intro exI[of _ n]) simp
    qed
  next
    case False
    then have w: "naga_usb_write (sign cmd) io = (0, io1)" using t by (simp add: naga_usb_write_def)
    obtain e2 b2 io2 where l: "naga_usb_read_loop 0 0 (sign cmd) io1 = (e2, b2, io2)"
      by (cases "naga_usb_read_loop 0 0 (sign cmd) io1") auto
    from usb_read_loop_trace[OF l] obtain n where n: "n \<le> 3" "trace io2 = trace io1 @ replicate n Usb_read"
      "device io2 = device io1" "transfers io2 = transfers io1 + n" by auto
    from assms w l have "io' = io2" by (auto simp add: naga_send_command_def Let_def naga_usb_read_def split: if_splits)
    with n io1 show ?thesis by (intro exI[of _ n]) simp
  qed
qed

lemma written_reads [simp]: "written (replicate n Usb_read) = []"
  by (induction n) auto

lemma send_command_written:
  "written (trace (snd (snd (naga_send_command cmd io)))) = written (trace io) @ [sign cmd]"
proof -
  obtain e c io' where s: "naga_send_command cmd io = (e, c, io')" by (cases "naga_send_command cmd io") auto
  from send_command_trace[OF s] show ?thesis using s by auto
qed

subsection \<open>The checksum\<close>

lemma take_drop_nth: "m + n \<le> length xs \<Longrightarrow> take n (drop m xs) = map ((!) xs) [m..<m + n]"
  by (rule nth_equalityI) simp_all

lemma sign_checksum:
  assumes "length cmd = sizeof_naga_command"
  shows "length (sign cmd) = sizeof_naga_command"
    and "sign cmd ! off_checksum = foldl (XOR) 0 (map ((!) cmd) [2..<88])"
    and "i \<noteq> off_checksum \<Longrightarrow> sign cmd ! i = cmd ! i"
  using assms take_drop_nth[of 2 86 cmd]
  by (simp_all add: sign_def sizeof_naga_command_def off_checksum_def razer_xor8_checksum_def)

lemma upt_88: "[2..<88] = [2..<86] @ [86, 87]"
  by (simp add: upt_rec[of 86] upt_rec[of 87] upt_add_eq_append[of 2 86 2, simplified])

lemma xor_tail_zero:
  "f 86 = (0::u8) \<Longrightarrow> f 87 = 0 \<Longrightarrow>
     foldl (XOR) 0 (map f [2..<88]) = foldl (XOR) 0 (map f [2..<86])"
  by (simp only: upt_88 map_append foldl_append) simp

subsection \<open>Resolution commands\<close>

lemma scaled_byte:
  assumes "100 \<le> r" "r < 6500"
  shows "unat (ucast (((word_of_int r :: u32) div 100 - 1) * 4) :: u8) = (nat r div 100 - 1) * 4"
proof -
  define w where "w = (word_of_int r :: u32)"
  have uw: "unat w = nat r" using assms by (simp add: w_def unat_eq_nat_uint uint_word_of_int take_bit_int_eq_self)
  have d: "unat (w div 100) = nat r div 100" using uw by (simp add: unat_div)
  have ge: "1 \<le> nat r div 100" using assms by linarith
  have le: "nat r div 100 \<le> 64" using assms by linarith
  have s: "unat (w div 100 - 1) = nat r div 100 - 1" using d ge
    by (metis unat_minus_one unat_eq_zero not_one_le_zero)
  have "unat (w div 100 - 1) * unat (4 :: u32) < 2 ^ LENGTH(32)" using s le by simp
  then have "unat ((w div 100 - 1) * 4) = unat (w div 100 - 1) * unat (4 :: u32)"
    by (simp only: unat_mult_lem)
  then have m: "unat ((w div 100 - 1) * 4) = (nat r div 100 - 1) * 4"
    using s by simp
  have "unat (ucast ((w div 100 - 1) * 4) :: u8) = ((nat r div 100 - 1) * 4) mod 256"
    using m by (simp add: unsigned_ucast_eq take_bit_eq_mod)
  also have "\<dots> = (nat r div 100 - 1) * 4" using le by simp
  finally show ?thesis by (simp add: w_def)
qed

lemma raw_bytes:
  assumes "0 \<le> r" "r < 65536"
  shows "unat (ucast (drop_bit 8 (word_of_int r :: u16)) :: u8) * 256 + unat (ucast (word_of_int r :: u16) :: u8) = nat r"
proof -
  define w where "w = (word_of_int r :: u16)"
  have uw: "unat w = nat r" using assms by (simp add: w_def unat_eq_nat_uint uint_word_of_int take_bit_int_eq_self)
  have hi: "unat (ucast (drop_bit 8 w) :: u8) = nat r div 256"
  proof -
    have "unat (drop_bit 8 w) = nat r div 256" using uw by (simp add: unat_drop_bit_eq drop_bit_eq_div unat_div)
    moreover have "nat r div 256 < 256" using assms by linarith
    ultimately show ?thesis by (simp add: unsigned_ucast_eq take_bit_eq_mod)
  qed
  have lo: "unat (ucast w :: u8) = nat r mod 256"
    using uw by (simp add: unsigned_ucast_eq take_bit_eq_mod)
  show ?thesis using hi lo by (simp add: w_def)
qed

lemma load_store_be16:
  "off + 1 < length cmd \<Longrightarrow> load_be16 off (store_be16 off v cmd) = v"
  apply (simp add: load_be16_def store_be16_def)
  apply (rule bit_word_eqI)
  apply (auto simp add: bit_simps)
  done

lemma length_store_be16 [simp]: "length (store_be16 off v cmd) = length cmd"
  by (simp add: store_be16_def)

lemma length_naga_command_init [simp]: "length naga_command_init = 90"
  by (simp add: naga_command_init_def sizeof_naga_command_def)

lemma store_be16_nth:
  "off + 1 < length cmd \<Longrightarrow> store_be16 off v cmd ! i =
     (if i = off then ucast (drop_bit 8 v) else if i = off + 1 then ucast v else cmd ! i)"
  by (simp add: store_be16_def nth_list_update)

lemma naga_command_init_nth: "i < 90 \<Longrightarrow> naga_command_init ! i = 0"
  by (simp add: naga_command_init_def sizeof_naga_command_def)

text \<open>
  C3. With the current X and Y mappings \<open>mx\<close> and \<open>my\<close>, the 5600 (scaled) builder puts
  one byte per axis into the first two value bytes: \<open>((dpi / 100) - 1) * 4\<close>, computed in
  32-bit unsigned arithmetic and cut to a byte, which is exactly that number for every
  resolution from 100 up to 6499, so for every slot of the 56-slot table; DPI 500 on both
  axes gives the value bytes 16, 16. The 8200 (raw) builder stores each axis's resolution
  as a 16-bit big-endian field, X in value bytes 1..2 and Y in value bytes 3..4; the field
  holds the resolution itself for every resolution below 65536.
\<close>

theorem resolution_encoding:
  assumes "deref_dpimapping priv (cur_dpimapping_X priv) = Some mx"
      and "deref_dpimapping priv (cur_dpimapping_Y priv) = Some my"
  shows "(\<exists>cmd. naga_command_init_resolution_5600 priv = Some cmd
            \<and> length cmd = sizeof_naga_command
            \<and> cmd ! off_values = ucast (((word_of_int (res_DIM_0 mx) :: u32) div 100 - 1) * 4)
            \<and> cmd ! (off_values + 1) = ucast (((word_of_int (res_DIM_0 my) :: u32) div 100 - 1) * 4)
            \<and> (100 \<le> res_DIM_0 mx \<and> res_DIM_0 mx < 6500 \<longrightarrow>
                 unat (cmd ! off_values) = (nat (res_DIM_0 mx) div 100 - 1) * 4)
            \<and> (100 \<le> res_DIM_0 my \<and> res_DIM_0 my < 6500 \<longrightarrow>
                 unat (cmd ! (off_values + 1)) = (nat (res_DIM_0 my) div 100 - 1) * 4)
            \<and> (res_DIM_0 mx = 500 \<and> res_DIM_0 my = 500 \<longrightarrow>
                 take 2 (drop off_values cmd) = [16, 16]))
       \<and> (\<exists>cmd. naga_command_init_resolution_8200 priv = Some cmd
            \<and> length cmd = sizeof_naga_command
            \<and> load_be16 (off_values + 1) cmd = word_of_int (res_DIM_0 mx)
            \<and> load_be16 (off_values + 3) cmd = word_of_int (res_DIM_0 my)
            \<and> (0 \<le> res_DIM_0 mx \<and> res_DIM_0 mx < 65536 \<longrightarrow>
                 unat (cmd ! (off_values + 1)) * 256 + unat (cmd ! (off_values + 2))
                   = nat (res_DIM_0 mx))
            \<and> (0 \<le> res_DIM_0 my \<and> res_DIM_0 my < 65536 \<longrightarrow>
                 unat (cmd ! (off_values + 3)) * 256 + unat (cmd ! (off_values + 4))
                   = nat (res_DIM_0 my)))"
proof -
  let ?c = "store_be16 off_request 0x0401 (store_be16 off_command 0x0003 naga_command_init)"
  let ?x = "ucast (((word_of_int (res_DIM_0 mx) :: u32) div 100 - 1) * 4) :: u8"
  let ?y = "ucast (((word_of_int (res_DIM_0 my) :: u32) div 100 - 1) * 4) :: u8"
  let ?cmd = "?c[off_values := ?x, off_values + 1 := ?y]"
  have b: "naga_command_init_resolution_5600 priv = Some ?cmd"
    using assms by (simp add: naga_command_init_resolution_5600_def Let_def)
  have l: "length ?cmd = sizeof_naga_command" by (simp add: sizeof_naga_command_def)
  have x: "?cmd ! off_values = ?x" and y: "?cmd ! (off_values + 1) = ?y"
    by (simp_all add: off_values_def)
  have ux: "100 \<le> res_DIM_0 mx \<and> res_DIM_0 mx < 6500 \<longrightarrow>
              unat (?cmd ! off_values) = (nat (res_DIM_0 mx) div 100 - 1) * 4"
    unfolding x using scaled_byte[of "res_DIM_0 mx"] by blast
  have uy: "100 \<le> res_DIM_0 my \<and> res_DIM_0 my < 6500 \<longrightarrow>
              unat (?cmd ! (off_values + 1)) = (nat (res_DIM_0 my) div 100 - 1) * 4"
    unfolding y using scaled_byte[of "res_DIM_0 my"] by blast
  have t: "take 2 (drop off_values ?cmd) = [?x, ?y]"
    by (rule nth_equalityI) (auto simp add: off_values_def nth_list_update less_Suc_eq numeral_2_eq_2)
  have e: "res_DIM_0 mx = 500 \<and> res_DIM_0 my = 500 \<longrightarrow> take 2 (drop off_values ?cmd) = [16, 16]"
    unfolding t by auto
  have scaled: "\<exists>cmd. naga_command_init_resolution_5600 priv = Some cmd
            \<and> length cmd = sizeof_naga_command
            \<and> cmd ! off_values = ?x
            \<and> cmd ! (off_values + 1) = ?y
            \<and> (100 \<le> res_DIM_0 mx \<and> res_DIM_0 mx < 6500 \<longrightarrow>
                 unat (cmd ! off_values) = (nat (res_DIM_0 mx) div 100 - 1) * 4)
            \<and> (100 \<le> res_DIM_0 my \<and> res_DIM_0 my < 6500 \<longrightarrow>
                 unat (cmd ! (off_values + 1)) = (nat (res_DIM_0 my) div 100 - 1) * 4)
            \<and> (res_DIM_0 mx = 500 \<and> res_DIM_0 my = 500 \<longrightarrow>
                 take 2 (drop off_values cmd) = [16, 16])"
    by (intro exI[of _ ?cmd] conjI) (fact b l x y ux uy e)+
  let ?d = "store_be16 off_request 0x0405 (store_be16 off_command 0x0007 naga_command_init)"
  let ?v = "word_of_int (res_DIM_0 mx) :: u16"
  let ?w = "word_of_int (res_DIM_0 my) :: u16"
  let ?d1 = "store_be16 (off_values + 1) ?v ?d"
  let ?raw = "store_be16 (off_values + 3) ?w ?d1"
  have rb: "naga_command_init_resolution_8200 priv = Some ?raw"
    using assms by (simp add: naga_command_init_resolution_8200_def Let_def)
  have rl: "length ?raw = sizeof_naga_command" by (simp add: sizeof_naga_command_def)
  have ly: "load_be16 (off_values + 3) ?raw = ?w"
    by (rule load_store_be16) (simp add: off_values_def)
  have "load_be16 (off_values + 1) ?raw = load_be16 (off_values + 1) ?d1"
    by (simp add: load_be16_def store_be16_nth off_values_def)
  also have "\<dots> = ?v" by (rule load_store_be16) (simp add: off_values_def)
  finally have lx: "load_be16 (off_values + 1) ?raw = ?v" .
  have nx: "?raw ! (off_values + 1) = ucast (drop_bit 8 ?v)" "?raw ! (off_values + 2) = ucast ?v"
    and ny: "?raw ! (off_values + 3) = ucast (drop_bit 8 ?w)" "?raw ! (off_values + 4) = ucast ?w"
    by (simp_all add: store_be16_nth off_values_def)
  have rx: "0 \<le> res_DIM_0 mx \<and> res_DIM_0 mx < 65536 \<longrightarrow>
              unat (?raw ! (off_values + 1)) * 256 + unat (?raw ! (off_values + 2))
                = nat (res_DIM_0 mx)"
    unfolding nx using raw_bytes[of "res_DIM_0 mx"] by blast
  have ry: "0 \<le> res_DIM_0 my \<and> res_DIM_0 my < 65536 \<longrightarrow>
              unat (?raw ! (off_values + 3)) * 256 + unat (?raw ! (off_values + 4))
                = nat (res_DIM_0 my)"
    unfolding ny using raw_bytes[of "res_DIM_0 my"] by blast
  have raw: "\<exists>cmd. naga_command_init_resolution_8200 priv = Some cmd
            \<and> length cmd = sizeof_naga_command
            \<and> load_be16 (off_values + 1) cmd = ?v
            \<and> load_be16 (off_values + 3) cmd = ?w
            \<and> (0 \<le> res_DIM_0 mx \<and> res_DIM_0 mx < 65536 \<longrightarrow>
                 unat (cmd ! (off_values + 1)) * 256 + unat (cmd ! (off_values + 2))
                   = nat (res_DIM_0 mx))
            \<and> (0 \<le> res_DIM_0 my \<and> res_DIM_0 my < 65536 \<longrightarrow>
                 unat (cmd ! (off_values + 3)) * 256 + unat (cmd ! (off_values + 4))
                   = nat (res_DIM_0 my))"
    by (intro exI[of _ ?raw] conjI) (fact rb rl lx ly rx ry)+
  from scaled raw show ?thesis by (rule conjI)
qed


theorem resolution_encoding_witness:
  "deref_dpimapping (classic_priv\<lparr>cur_dpimapping_X := Some 4, cur_dpimapping_Y := Some 4\<rparr>) (Some 4)
      = Some \<lparr>nr = 4, res_DIM_0 = 500, dimension_mask = 1\<rparr>
   \<and> (\<exists>cmd. naga_command_init_resolution_5600
               (classic_priv\<lparr>cur_dpimapping_X := Some 4, cur_dpimapping_Y := Some 4\<rparr>) = Some cmd
          \<and> unat (cmd ! off_values) = 16 \<and> unat (cmd ! (off_values + 1)) = 16
          \<and> take 2 (drop off_values cmd) = [16, 16])
   \<and> (\<exists>cmd. naga_command_init_resolution_8200
               (classic_priv\<lparr>cur_dpimapping_X := Some 4, cur_dpimapping_Y := Some 4\<rparr>) = Some cmd
          \<and> unat (cmd ! (off_values + 1)) * 256 + unat (cmd ! (off_values + 2)) = 500
          \<and> unat (cmd ! (off_values + 3)) * 256 + unat (cmd ! (off_values + 4)) = 500)"
proof -
  let ?p = "classic_priv\<lparr>cur_dpimapping_X := Some 4, cur_dpimapping_Y := Some 4\<rparr>"
  have s: "dpimapping classic_priv ! 4 = \<lparr>nr = 4, res_DIM_0 = 500, dimension_mask = 1\<rparr>"
    by (simp add: classic_priv_def init_settings_slot init_settings_fields example_ids_def)
  have d: "deref_dpimapping ?p (Some 4) = Some \<lparr>nr = 4, res_DIM_0 = 500, dimension_mask = 1\<rparr>"
    by (simp add: deref_dpimapping_def classic_priv_fields s)
  have dx: "deref_dpimapping ?p (cur_dpimapping_X ?p) = Some \<lparr>nr = 4, res_DIM_0 = 500, dimension_mask = 1\<rparr>"
   and dy: "deref_dpimapping ?p (cur_dpimapping_Y ?p) = Some \<lparr>nr = 4, res_DIM_0 = 500, dimension_mask = 1\<rparr>"
    using d by simp_all
  from resolution_encoding [OF dx dy] d show ?thesis by (simp del: One_nat_def) blast
qed


text \<open>
  Every packet the driver builds has zero in bytes 86 and 87, the last two bytes of the second
  padding field.
\<close>

lemma built_padding_zero:
  "fw_ver_command ! 86 = 0 \<and> fw_ver_command ! 87 = 0"
  "led_command i st ! 86 = 0 \<and> led_command i st ! 87 = 0"
  "freq_command c ! 86 = 0 \<and> freq_command c ! 87 = 0"
  "call_command_init_resolution priv = Some cmd \<Longrightarrow> cmd ! 86 = 0 \<and> cmd ! 87 = 0"
  by (auto simp add: fw_ver_command_def led_command_def freq_command_def Let_def
      call_command_init_resolution_def naga_command_init_resolution_5600_def
      naga_command_init_resolution_8200_def store_be16_nth naga_command_init_nth
      off_values_def off_command_def off_request_def
      split: option.splits resolution_fn.splits)


subsection \<open>The firmware probe\<close>

lemma high_byte: "(load_be16 off cmd AND 0xFF00 = 0) = (cmd ! off = 0)"
proof -
  have m: "(0xFF00 :: u16) = push_bit 8 (mask 8)" by (simp add: mask_eq_exp_minus_1)
  show ?thesis
    unfolding load_be16_def m
    apply (rule iffI)
    subgoal
      apply (rule bit_word_eqI)
      apply (drule_tac f="\<lambda>w. bit w (n + 8)" in arg_cong)
      apply (simp add: bit_simps)
      done
    subgoal
      apply (rule bit_word_eqI)
      apply (auto simp add: bit_simps dest: bit_imp_le_length)
      done
    done
qed

lemma loop_step:
  "i < 5 \<Longrightarrow> naga_read_fw_ver_loop i io =
     (case fst (fw_attempt io) of
        Some v \<Rightarrow> (Inr v, snd (fw_attempt io))
      | None \<Rightarrow> naga_read_fw_ver_loop (i + 1) (fw_retry io))"
  by (subst naga_read_fw_ver_loop.simps)
     (simp add: fw_attempt_def fw_retry_def Let_def split: prod.splits)

lemma probe_loop_success:
  "i + k < 5 \<Longrightarrow> \<forall>j<k. fst (fw_attempt ((fw_retry ^^ j) io)) = None \<Longrightarrow>
   fst (fw_attempt ((fw_retry ^^ k) io)) = Some v \<Longrightarrow>
   naga_read_fw_ver_loop i io = (Inr v, snd (fw_attempt ((fw_retry ^^ k) io)))"
proof (induction k arbitrary: i io)
  case 0
  then show ?case by (simp add: loop_step)
next
  case (Suc k)
  from Suc.prems(2) have f0: "fst (fw_attempt io) = None" by (metis funpow_0 zero_less_Suc)
  have r: "\<forall>j<k. fst (fw_attempt ((fw_retry ^^ j) (fw_retry io))) = None"
    using Suc.prems(2) by (metis Suc_less_eq funpow_Suc_right o_apply)
  have s: "fst (fw_attempt ((fw_retry ^^ k) (fw_retry io))) = Some v"
    using Suc.prems(3) by (simp add: funpow_swap1)
  from Suc.prems(1) have "Suc i + k < 5" by simp
  from Suc.IH[OF this r s] Suc.prems(1) f0 show ?case
    by (simp add: loop_step funpow_swap1)
qed

lemma probe_loop_fail:
  "i + k = 5 \<Longrightarrow> \<forall>j<k. fst (fw_attempt ((fw_retry ^^ j) io)) = None \<Longrightarrow>
   naga_read_fw_ver_loop i io = (Inl ENODEV, (fw_retry ^^ k) io)"
proof (induction k arbitrary: i io)
  case 0
  then show ?case by (simp add: naga_read_fw_ver_loop.simps)
next
  case (Suc k)
  from Suc.prems(2) have f0: "fst (fw_attempt io) = None" by (metis funpow_0 zero_less_Suc)
  have r: "\<forall>j<k. fst (fw_attempt ((fw_retry ^^ j) (fw_retry io))) = None"
    using Suc.prems(2) by (metis Suc_less_eq funpow_Suc_right o_apply)
  from Suc.prems(1) have "Suc i + k = 5" by simp
  from Suc.IH[OF this r] Suc.prems(1) f0 show ?case
    by (simp add: loop_step funpow_swap1)
qed

lemma probe_written:
  "i \<le> 5 \<Longrightarrow> \<exists>n \<le> 5 - i. (i < 5 \<longrightarrow> 1 \<le> n) \<and> written (trace (snd (naga_read_fw_ver_loop i io)))
        = written (trace io) @ replicate n (sign fw_ver_command)"
proof (induction i io rule: naga_read_fw_ver_loop.induct)
  case (1 i io)
  show ?case
  proof (cases "i < 5")
    case False
    then show ?thesis by (simp add: naga_read_fw_ver_loop.simps)
  next
    case True
    have w: "written (trace (snd (fw_attempt io))) = written (trace io) @ [sign fw_ver_command]"
      using send_command_written[of fw_ver_command io]
      by (cases "naga_send_command fw_ver_command io") (simp add: fw_attempt_def)
    show ?thesis
    proof (cases "fst (fw_attempt io)")
      case (Some v)
      with True w show ?thesis
        by (intro exI[of _ 1]) (simp add: loop_step)
    next
      case None
      obtain e c io1 where sc: "naga_send_command fw_ver_command io = (e, c, io1)"
        by (cases "naga_send_command fw_ver_command io") auto
      with None have ne: "\<not> (e = 0 \<and> load_be16 off_values c AND 0xFF00 \<noteq> 0)"
        by (auto simp: fw_attempt_def split: if_splits)
      have fr: "fw_retry io = razer_msleep 250 io1" using sc by (simp add: fw_retry_def fw_attempt_def)
      from "1.IH"[OF True sc[symmetric] refl refl ne] True
      obtain n where n: "n \<le> 5 - (i + 1)"
        "written (trace (snd (naga_read_fw_ver_loop (i + 1) (razer_msleep 250 io1))))
           = written (trace (razer_msleep 250 io1)) @ replicate n (sign fw_ver_command)"
        by auto
      have "written (trace (razer_msleep 250 io1)) = written (trace io) @ [sign fw_ver_command]"
        using w sc by (simp add: razer_msleep_def fw_attempt_def)
      with n None True fr show ?thesis
        by (intro exI[of _ "Suc n"]) (simp add: loop_step replicate_app_Cons_same)
    qed
  qed
qed


lemma fw_attempt_Some:
  "fst (fw_attempt io) = Some v \<longleftrightarrow>
     (\<exists>cmd io'. naga_send_command fw_ver_command io = (0, cmd, io')
         \<and> cmd ! off_values \<noteq> 0 \<and> v = load_be16 off_values cmd)"
  by (cases "naga_send_command fw_ver_command io")
     (auto simp: fw_attempt_def high_byte)

lemma init_probe_fails:
  assumes "get_device_descriptor env = Some pid" "zalloc_ok env" "add_used_interface env = 0"
    "claim_result env = 0" "fst (naga_read_fw_ver (usb m)) = Inl e"
  shows "fst (razer_naga_init ids env m) = Inl e"
    and "claim_count (snd (razer_naga_init ids env m)) = claim_count m"
    and "drv_data (snd (razer_naga_init ids env m)) = None"
    and "usb (snd (razer_naga_init ids env m)) = snd (naga_read_fw_ver (usb m))"
  using assms
  by (cases "naga_read_fw_ver (usb m)";
      simp add: razer_naga_init_def Let_def mouse_claim_def err_release_def err_free_def
        mouse_release_def)+

lemma no_reads_append [simp]: "no_reads (xs @ ys) = no_reads xs @ no_reads ys"
  by (simp add: no_reads_def)

lemma no_reads_replicate [simp]: "no_reads (replicate n Usb_read) = []"
  by (simp add: no_reads_def)

lemma no_reads_send:
  "no_reads (trace (snd (snd (naga_send_command cmd io))))
     = no_reads (trace io) @ [Usb_write (sign cmd)]"
proof -
  obtain e c io' where s: "naga_send_command cmd io = (e, c, io')"
    by (cases "naga_send_command cmd io") auto
  from send_command_trace[OF s] obtain n where
    "trace io' = trace io @ Usb_write (sign cmd) # replicate n Usb_read" by blast
  then have "trace io' = (trace io @ [Usb_write (sign cmd)]) @ replicate n Usb_read" by simp
  then have "no_reads (trace io') = no_reads (trace io @ [Usb_write (sign cmd)])"
    by (simp only: no_reads_append no_reads_replicate append_Nil2)
  with s show ?thesis by (simp add: no_reads_def)
qed

lemma no_reads_attempt:
  "no_reads (trace (snd (fw_attempt io))) = no_reads (trace io) @ [Usb_write (sign fw_ver_command)]"
  using no_reads_send[of fw_ver_command io]
  by (cases "naga_send_command fw_ver_command io") (simp add: fw_attempt_def)

lemma no_reads_retry:
  "no_reads (trace (fw_retry io))
     = no_reads (trace io) @ [Usb_write (sign fw_ver_command), Msleep 250]"
  using no_reads_attempt[of io] by (simp add: fw_retry_def razer_msleep_def no_reads_def)

lemma probe_spacing:
  "5 - i = n \<Longrightarrow> i \<le> 5 \<Longrightarrow>
   \<exists>k. no_reads (trace (snd (naga_read_fw_ver_loop i io)))
         = no_reads (trace io)
           @ concat (replicate k [Usb_write (sign fw_ver_command), Msleep 250])
           @ (case fst (naga_read_fw_ver_loop i io) of
                Inl _ \<Rightarrow> [] | Inr _ \<Rightarrow> [Usb_write (sign fw_ver_command)])
       \<and> (case fst (naga_read_fw_ver_loop i io) of
             Inl e \<Rightarrow> e = ENODEV \<and> k = n | Inr _ \<Rightarrow> k < n)"
proof (induction n arbitrary: i io)
  case 0
  then have "i = 5" by simp
  then show ?case by (intro exI[of _ 0]) (simp add: naga_read_fw_ver_loop.simps)
next
  case (Suc n)
  then have i: "i < 5" and n: "5 - (i + 1) = n" and le: "i + 1 \<le> 5" by simp_all
  show ?case
  proof (cases "fst (fw_attempt io)")
    case (Some v)
    with i show ?thesis
      by (intro exI[of _ 0]) (simp add: loop_step no_reads_attempt)
  next
    case None
    from Suc.IH[OF n le, of "fw_retry io"] obtain k where
      k: "no_reads (trace (snd (naga_read_fw_ver_loop (i + 1) (fw_retry io))))
         = no_reads (trace (fw_retry io))
           @ concat (replicate k [Usb_write (sign fw_ver_command), Msleep 250])
           @ (case fst (naga_read_fw_ver_loop (i + 1) (fw_retry io)) of
                Inl _ \<Rightarrow> [] | Inr _ \<Rightarrow> [Usb_write (sign fw_ver_command)])"
      and c: "case fst (naga_read_fw_ver_loop (i + 1) (fw_retry io)) of
             Inl e \<Rightarrow> e = ENODEV \<and> k = n | Inr _ \<Rightarrow> k < n"
      by blast
    have l: "naga_read_fw_ver_loop i io = naga_read_fw_ver_loop (i + 1) (fw_retry io)"
      using i None by (simp add: loop_step)
    show ?thesis
      apply (rule exI[of _ "Suc k"])
      unfolding l
      using k c by (auto simp add: no_reads_retry split: sum.splits)
  qed
qed

lemma read_fw_ver_spacing:
  "\<exists>k\<le>5. no_reads (trace (snd (naga_read_fw_ver io)))
         = no_reads (trace io)
           @ concat (replicate k [Usb_write (sign fw_ver_command), Msleep 250])
           @ (case fst (naga_read_fw_ver io) of
                Inl _ \<Rightarrow> [] | Inr _ \<Rightarrow> [Usb_write (sign fw_ver_command)])
       \<and> (case fst (naga_read_fw_ver io) of
             Inl e \<Rightarrow> e = ENODEV \<and> k = 5 | Inr _ \<Rightarrow> k < 5)"
proof -
  from probe_spacing[of 0 5 io] obtain k where
    a: "no_reads (trace (snd (naga_read_fw_ver io)))
         = no_reads (trace io)
           @ concat (replicate k [Usb_write (sign fw_ver_command), Msleep 250])
           @ (case fst (naga_read_fw_ver io) of
                Inl _ \<Rightarrow> [] | Inr _ \<Rightarrow> [Usb_write (sign fw_ver_command)])"
    and b: "case fst (naga_read_fw_ver io) of
             Inl e \<Rightarrow> e = ENODEV \<and> k = 5 | Inr _ \<Rightarrow> k < 5"
    unfolding naga_read_fw_ver_def by auto
  from b have "k \<le> 5" by (cases "fst (naga_read_fw_ver io)") auto
  with a b show ?thesis by blast
qed

text \<open>
  C4. \<^verbatim>\<open>naga_read_fw_ver\<close> makes between one and five attempts, each writing the
  firmware query once. An attempt succeeds exactly when \<^verbatim>\<open>naga_send_command\<close> returns 0
  and the high byte of the 16-bit version read from the first two value bytes is non-zero.
  If the attempt after \<open>k < 5\<close> failed ones succeeds, the probe returns that attempt's
  version; if five attempts fail, it returns not-ready (\<open>ENODEV\<close>). The attempts are 250 ms
  apart: leaving the reads aside, what the probe adds to the trace is, for each failed
  attempt, the query followed by a sleep of 250 ms, and then, when it succeeds, the query of
  the successful attempt; there are five failed attempts when it fails and fewer when it
  succeeds. When the probe fails, \<^verbatim>\<open>razer_naga_init\<close>, having got as far as the probe,
  returns the same error, with the claim count back at its value before the call and the
  private struct freed.
\<close>

theorem fw_probe:
  "(k < 5 \<and> (\<forall>j<k. fst (fw_attempt ((fw_retry ^^ j) io)) = None)
      \<and> fst (fw_attempt ((fw_retry ^^ k) io)) = Some v
      \<longrightarrow> naga_read_fw_ver io = (Inr v, snd (fw_attempt ((fw_retry ^^ k) io))))
   \<and> ((\<forall>j<5. fst (fw_attempt ((fw_retry ^^ j) io)) = None)
      \<longrightarrow> naga_read_fw_ver io = (Inl ENODEV, (fw_retry ^^ 5) io))
   \<and> (fst (fw_attempt io) = Some v \<longleftrightarrow>
        (\<exists>cmd io'. naga_send_command fw_ver_command io = (0, cmd, io')
            \<and> cmd ! off_values \<noteq> 0 \<and> v = load_be16 off_values cmd))
   \<and> (\<exists>n. 1 \<le> n \<and> n \<le> 5 \<and> written (trace (snd (naga_read_fw_ver io)))
                                = written (trace io) @ replicate n (sign fw_ver_command))
   \<and> (\<exists>f\<le>5. no_reads (trace (snd (naga_read_fw_ver io)))
                 = no_reads (trace io)
                   @ concat (replicate f [Usb_write (sign fw_ver_command), Msleep 250])
                   @ (case fst (naga_read_fw_ver io) of
                        Inl _ \<Rightarrow> [] | Inr _ \<Rightarrow> [Usb_write (sign fw_ver_command)])
               \<and> (case fst (naga_read_fw_ver io) of
                     Inl e \<Rightarrow> e = ENODEV \<and> f = 5 | Inr _ \<Rightarrow> f < 5))
   \<and> (get_device_descriptor env = Some pid \<and> zalloc_ok env \<and> add_used_interface env = 0
        \<and> claim_result env = 0 \<and> fst (naga_read_fw_ver (usb m)) = Inl ENODEV
      \<longrightarrow> fst (razer_naga_init ids env m) = Inl ENODEV
          \<and> claim_count (snd (razer_naga_init ids env m)) = claim_count m
          \<and> drv_data (snd (razer_naga_init ids env m)) = None)"
proof (intro conjI impI)
  assume "k < 5 \<and> (\<forall>j<k. fst (fw_attempt ((fw_retry ^^ j) io)) = None)
      \<and> fst (fw_attempt ((fw_retry ^^ k) io)) = Some v"
  then show "naga_read_fw_ver io = (Inr v, snd (fw_attempt ((fw_retry ^^ k) io)))"
    using probe_loop_success[of 0 k io v] by (simp add: naga_read_fw_ver_def)
next
  assume "\<forall>j<5. fst (fw_attempt ((fw_retry ^^ j) io)) = None"
  then show "naga_read_fw_ver io = (Inl ENODEV, (fw_retry ^^ 5) io)"
    using probe_loop_fail[of 0 5 io] by (simp add: naga_read_fw_ver_def)
next
  show "fst (fw_attempt io) = Some v \<longleftrightarrow>
        (\<exists>cmd io'. naga_send_command fw_ver_command io = (0, cmd, io')
            \<and> cmd ! off_values \<noteq> 0 \<and> v = load_be16 off_values cmd)"
    by (rule fw_attempt_Some)
next
  show "\<exists>n. 1 \<le> n \<and> n \<le> 5 \<and> written (trace (snd (naga_read_fw_ver io)))
                                = written (trace io) @ replicate n (sign fw_ver_command)"
    using probe_written[of 0 io] by (auto simp: naga_read_fw_ver_def)
next
  show "\<exists>f\<le>5. no_reads (trace (snd (naga_read_fw_ver io)))
                 = no_reads (trace io)
                   @ concat (replicate f [Usb_write (sign fw_ver_command), Msleep 250])
                   @ (case fst (naga_read_fw_ver io) of
                        Inl _ \<Rightarrow> [] | Inr _ \<Rightarrow> [Usb_write (sign fw_ver_command)])
               \<and> (case fst (naga_read_fw_ver io) of
                     Inl e \<Rightarrow> e = ENODEV \<and> f = 5 | Inr _ \<Rightarrow> f < 5)"
    by (rule read_fw_ver_spacing)
next
  assume a: "get_device_descriptor env = Some pid \<and> zalloc_ok env \<and> add_used_interface env = 0
        \<and> claim_result env = 0 \<and> fst (naga_read_fw_ver (usb m)) = Inl ENODEV"
  then show "fst (razer_naga_init ids env m) = Inl ENODEV"
    and "claim_count (snd (razer_naga_init ids env m)) = claim_count m"
    and "drv_data (snd (razer_naga_init ids env m)) = None"
    using init_probe_fails[of env pid m ENODEV ids] by simp_all
qed

lemma all_less_4: "(\<forall>j<4. P j) = (P 0 \<and> P 1 \<and> P 2 \<and> P (3::nat))"
  by (auto simp: less_Suc_eq numeral_eq_Suc)

lemma all_less_5: "(\<forall>j<5. P j) = (P 0 \<and> P 1 \<and> P 2 \<and> P 3 \<and> P (4::nat))"
  by (auto simp: less_Suc_eq numeral_eq_Suc)



lemma funpow_small:
  "(f ^^ 0) x = x" "(f ^^ 1) x = f x" "(f ^^ 2) x = f (f x)" "(f ^^ 3) x = f (f (f x))"
  "(f ^^ 4) x = f (f (f (f x)))" "(f ^^ 5) x = f (f (f (f (f x))))"
  by (simp_all add: numeral_eq_Suc)

lemma slow_device_attempts:
  "fst (fw_attempt ((fw_retry ^^ 0) (usb_start slow_device))) = None"
  "fst (fw_attempt ((fw_retry ^^ 1) (usb_start slow_device))) = None"
  "fst (fw_attempt ((fw_retry ^^ 2) (usb_start slow_device))) = None"
  "fst (fw_attempt ((fw_retry ^^ 3) (usb_start slow_device))) = None"
  "fst (fw_attempt ((fw_retry ^^ 4) (usb_start slow_device))) = Some 0x0104"
  by (simp_all only: funpow_small) code_simp+

lemma dead_device_attempts:
  "fst (fw_attempt ((fw_retry ^^ 0) (usb_start dead_device))) = None"
  "fst (fw_attempt ((fw_retry ^^ 1) (usb_start dead_device))) = None"
  "fst (fw_attempt ((fw_retry ^^ 2) (usb_start dead_device))) = None"
  "fst (fw_attempt ((fw_retry ^^ 3) (usb_start dead_device))) = None"
  "fst (fw_attempt ((fw_retry ^^ 4) (usb_start dead_device))) = None"
  by (simp_all only: funpow_small) code_simp+

lemma dead_device_trace:
  "trace ((fw_retry ^^ 5) (usb_start dead_device))
     = concat (replicate 5 [Usb_write (sign fw_ver_command), Msleep 250])"
  by (simp only: funpow_small) code_simp

lemma slow_device_trace:
  "no_reads (trace (snd (fw_attempt ((fw_retry ^^ 4) (usb_start slow_device)))))
     = concat (replicate 4 [Usb_write (sign fw_ver_command), Msleep 250])
       @ [Usb_write (sign fw_ver_command)]"
  by (simp only: funpow_small) code_simp

theorem fw_probe_witness:
  "naga_read_fw_ver (usb_start slow_device)
      = (Inr 0x0104, snd (fw_attempt ((fw_retry ^^ 4) (usb_start slow_device))))
   \<and> no_reads (trace (snd (naga_read_fw_ver (usb_start slow_device))))
      = concat (replicate 4 [Usb_write (sign fw_ver_command), Msleep 250])
        @ [Usb_write (sign fw_ver_command)]
   \<and> naga_read_fw_ver (usb_start dead_device)
      = (Inl ENODEV, (fw_retry ^^ 5) (usb_start dead_device))
   \<and> no_reads (trace (snd (naga_read_fw_ver (usb_start dead_device))))
      = concat (replicate 5 [Usb_write (sign fw_ver_command), Msleep 250])
   \<and> fst (razer_naga_init example_ids (attach_ok 0x0015) (unattached_mouse dead_device))
      = Inl ENODEV
   \<and> claim_count (snd (razer_naga_init example_ids (attach_ok 0x0015)
                         (unattached_mouse dead_device))) = 0
   \<and> drv_data (snd (razer_naga_init example_ids (attach_ok 0x0015)
                      (unattached_mouse dead_device))) = None"
proof -
  have s: "\<forall>j<4. fst (fw_attempt ((fw_retry ^^ j) (usb_start slow_device))) = None"
    unfolding all_less_4 using slow_device_attempts by blast
  have d: "\<forall>j<5. fst (fw_attempt ((fw_retry ^^ j) (usb_start dead_device))) = None"
    unfolding all_less_5 using dead_device_attempts by blast
  have a: "naga_read_fw_ver (usb_start slow_device)
      = (Inr 0x0104, snd (fw_attempt ((fw_retry ^^ 4) (usb_start slow_device))))"
    using fw_probe [of 4 "usb_start slow_device" "0x0104", THEN conjunct1] s
      slow_device_attempts(5)
    by simp
  have a': "no_reads (trace (snd (naga_read_fw_ver (usb_start slow_device))))
      = concat (replicate 4 [Usb_write (sign fw_ver_command), Msleep 250])
        @ [Usb_write (sign fw_ver_command)]"
    using a slow_device_trace by simp
  have b: "naga_read_fw_ver (usb_start dead_device)
      = (Inl ENODEV, (fw_retry ^^ 5) (usb_start dead_device))"
    using fw_probe [of 0 "usb_start dead_device", THEN conjunct2, THEN conjunct1] d by simp
  from fw_probe [of 0 "usb_start dead_device", THEN conjunct2, THEN conjunct2,
      THEN conjunct2, THEN conjunct2, THEN conjunct1] obtain f where
    f: "no_reads (trace (snd (naga_read_fw_ver (usb_start dead_device))))
          = no_reads (trace (usb_start dead_device))
            @ concat (replicate f [Usb_write (sign fw_ver_command), Msleep 250])
            @ (case fst (naga_read_fw_ver (usb_start dead_device)) of
                 Inl _ \<Rightarrow> [] | Inr _ \<Rightarrow> [Usb_write (sign fw_ver_command)])"
    and f5: "case fst (naga_read_fw_ver (usb_start dead_device)) of
               Inl e \<Rightarrow> e = ENODEV \<and> f = 5 | Inr _ \<Rightarrow> f < 5"
    by blast
  from f5 b have "f = 5" by simp
  with f b have b': "no_reads (trace (snd (naga_read_fw_ver (usb_start dead_device))))
      = concat (replicate 5 [Usb_write (sign fw_ver_command), Msleep 250])"
    by (simp add: usb_start_def no_reads_def)
  have c: "fst (razer_naga_init example_ids (attach_ok 0x0015) (unattached_mouse dead_device))
      = Inl ENODEV
   \<and> claim_count (snd (razer_naga_init example_ids (attach_ok 0x0015)
                         (unattached_mouse dead_device))) = claim_count (unattached_mouse dead_device)
   \<and> drv_data (snd (razer_naga_init example_ids (attach_ok 0x0015)
                      (unattached_mouse dead_device))) = None"
    using fw_probe [of 0 "usb_start dead_device" 0 "attach_ok 0x0015" "0x0015"
        "unattached_mouse dead_device" example_ids, THEN conjunct2, THEN conjunct2,
        THEN conjunct2, THEN conjunct2, THEN conjunct2] b
    by (simp add: attach_ok_def unattached_mouse_def)
  have cc: "claim_count (unattached_mouse dead_device) = 0" by (simp add: unattached_mouse_def)
  from a a' b b' c cc show ?thesis by (simp only:)
qed


subsection \<open>Commit\<close>

lemma spec_send_append:
  "spec_send_in_order (xs @ ys) io =
     (case spec_send_in_order xs io of
        (e, io') \<Rightarrow> if e \<noteq> 0 then (e, io') else spec_send_in_order ys io')"
  by (induction xs arbitrary: io) (auto split: prod.splits)

lemma do_commit_leds_spec:
  "led_id \<le> NAGA_NR_LEDS \<Longrightarrow>
   naga_do_commit_leds led_id priv io =
     spec_send_in_order
       (map (\<lambda>i. led_command i (led_states priv ! i))
          (filter (\<lambda>i. led_states priv ! i \<noteq> RAZER_LED_UNKNOWN) [led_id..<NAGA_NR_LEDS])) io"
proof (induction led_id priv io rule: naga_do_commit_leds.induct)
  case (1 led_id priv io)
  show ?case
  proof (cases "led_id < NAGA_NR_LEDS")
    case False
    with "1.prems" show ?thesis by (simp add: naga_do_commit_leds.simps)
  next
    case True
    then have u: "[led_id..<NAGA_NR_LEDS] = led_id # [led_id + 1..<NAGA_NR_LEDS]"
      by (simp add: upt_conv_Cons)
    show ?thesis
    proof (cases "led_states priv ! led_id = RAZER_LED_UNKNOWN")
      case True
      with "1.IH"(1)[OF \<open>led_id < NAGA_NR_LEDS\<close> True] \<open>led_id < NAGA_NR_LEDS\<close> show ?thesis
        by (subst naga_do_commit_leds.simps) (simp add: u)
    next
      case False
      obtain e c io1 where sc: "naga_send_command (led_command led_id (led_states priv ! led_id)) io = (e, c, io1)"
        by (cases "naga_send_command (led_command led_id (led_states priv ! led_id)) io") auto
      show ?thesis
      proof (cases "e = 0")
        case True
        with "1.IH"(2)[OF \<open>led_id < NAGA_NR_LEDS\<close> False sc[symmetric] refl] \<open>led_id < NAGA_NR_LEDS\<close> False sc
        show ?thesis
          by (subst naga_do_commit_leds.simps) (simp add: u)
      next
        case ne: False
        with \<open>led_id < NAGA_NR_LEDS\<close> False sc show ?thesis
          by (subst naga_do_commit_leds.simps) (simp add: u)
      qed
    qed
  qed
qed

lemma do_commit_spec:
  assumes "call_command_init_resolution priv = Some res_cmd"
  shows "naga_do_commit priv io =
     (let r = spec_send_in_order (spec_commit_commands priv res_cmd) io in
      if fst r \<noteq> 0 then (Inl (ECODE (fst r)), snd r)
      else if freq_code (frequency priv) = None then (Inl EINVAL, snd r)
      else (Inr (), snd r))"
proof -
  have leds: "naga_do_commit_leds 0 priv io' = spec_send_in_order (spec_led_commands priv) io'" for io'
    using do_commit_leds_spec[of 0 priv io'] by (simp add: spec_led_commands_def)
  show ?thesis
    using assms
    by (cases "freq_code (frequency priv)")
       (auto simp add: naga_do_commit_def spec_commit_commands_def leds spec_send_append Let_def
          split: prod.splits)
qed

lemma spec_send_written:
  "\<exists>k\<le>length cmds. written (trace (snd (spec_send_in_order cmds io)))
        = written (trace io) @ map sign (take k cmds)
     \<and> (fst (spec_send_in_order cmds io) = 0 \<longrightarrow> k = length cmds)"
proof (induction cmds arbitrary: io)
  case Nil
  then show ?case by simp
next
  case (Cons c cs)
  obtain e b io1 where sc: "naga_send_command c io = (e, b, io1)"
    by (cases "naga_send_command c io") auto
  have w: "written (trace io1) = written (trace io) @ [sign c]"
    using send_command_written[of c io] sc by simp
  show ?case
  proof (cases "e = 0")
    case False
    with sc w show ?thesis by (intro exI[of _ 1]) simp
  next
    case True
    from Cons.IH[of io1] obtain k where k: "k \<le> length cs"
      "written (trace (snd (spec_send_in_order cs io1))) = written (trace io1) @ map sign (take k cs)"
      "fst (spec_send_in_order cs io1) = 0 \<longrightarrow> k = length cs" by auto
    with sc w True show ?thesis by (intro exI[of _ "Suc k"]) simp
  qed
qed

lemma naga_commit_spec:
  assumes "drv_data m = Some priv" and "call_command_init_resolution priv = Some res_cmd"
  shows "(claim_count m = 0 \<longrightarrow> naga_commit force m = (Inl EBUSY, m))
       \<and> (claim_count m \<noteq> 0 \<and> \<not> commit_pending priv \<and> force = 0 \<longrightarrow>
            naga_commit force m = (Inr (), m))
       \<and> (claim_count m \<noteq> 0 \<and> (commit_pending priv \<or> force \<noteq> 0) \<longrightarrow>
            (let cmds = spec_commit_commands priv res_cmd;
                 r = spec_send_in_order cmds (usb m)
             in naga_commit force m =
                  (if fst r \<noteq> 0 then (Inl (ECODE (fst r)), m\<lparr>usb := snd r\<rparr>)
                   else if freq_code (frequency priv) = None then (Inl EINVAL, m\<lparr>usb := snd r\<rparr>)
                   else (Inr (), m\<lparr>drv_data := Some (priv\<lparr>commit_pending := False\<rparr>),
                                   usb := snd r\<rparr>))
                \<and> (\<exists>k\<le>length cmds.
                      written (trace (snd r)) = written (trace (usb m)) @ map sign (take k cmds)
                      \<and> (fst r = 0 \<longrightarrow> k = length cmds))))"
proof (intro conjI impI)
  assume "claim_count m = 0"
  then show "naga_commit force m = (Inl EBUSY, m)" by (simp add: naga_commit_def)
next
  assume "claim_count m \<noteq> 0 \<and> \<not> commit_pending priv \<and> force = 0"
  then show "naga_commit force m = (Inr (), m)" using assms(1) by (simp add: naga_commit_def)
next
  assume a: "claim_count m \<noteq> 0 \<and> (commit_pending priv \<or> force \<noteq> 0)"
  have c: "naga_commit force m =
      (case naga_do_commit priv (usb m) of
         (Inl e, io') \<Rightarrow> (Inl e, m\<lparr>usb := io'\<rparr>)
       | (Inr _, io') \<Rightarrow> (Inr (), m\<lparr>drv_data := Some (priv\<lparr>commit_pending := False\<rparr>), usb := io'\<rparr>))"
    using a assms(1) by (auto simp add: naga_commit_def)
  show "let cmds = spec_commit_commands priv res_cmd;
                 r = spec_send_in_order cmds (usb m)
             in naga_commit force m =
                  (if fst r \<noteq> 0 then (Inl (ECODE (fst r)), m\<lparr>usb := snd r\<rparr>)
                   else if freq_code (frequency priv) = None then (Inl EINVAL, m\<lparr>usb := snd r\<rparr>)
                   else (Inr (), m\<lparr>drv_data := Some (priv\<lparr>commit_pending := False\<rparr>),
                                   usb := snd r\<rparr>))
                \<and> (\<exists>k\<le>length cmds.
                      written (trace (snd r)) = written (trace (usb m)) @ map sign (take k cmds)
                      \<and> (fst r = 0 \<longrightarrow> k = length cmds))"
    unfolding Let_def
    using spec_send_written[of "spec_commit_commands priv res_cmd" "usb m"]
    by (simp add: c do_commit_spec[OF assms(2)] Let_def)
qed


lemma commit_ready_builder:
  "drv_data m = Some priv \<Longrightarrow> commit_ready m \<Longrightarrow>
     \<exists>res_cmd. call_command_init_resolution priv = Some res_cmd"
  by (auto simp add: commit_ready_def call_command_init_resolution_def
        naga_command_init_resolution_5600_def naga_command_init_resolution_8200_def Let_def
      split: option.splits resolution_fn.splits)

lemma builder_commit_ready:
  "drv_data m = Some priv \<Longrightarrow> call_command_init_resolution priv = Some res_cmd \<Longrightarrow>
     commit_ready m"
  by (auto simp add: commit_ready_def call_command_init_resolution_def
        naga_command_init_resolution_5600_def naga_command_init_resolution_8200_def Let_def
      split: option.splits resolution_fn.splits)

lemma deref_upd [simp]:
  "deref_dpimapping (priv\<lparr>commit_pending := b\<rparr>) p = deref_dpimapping priv p"
  "deref_dpimapping (priv\<lparr>frequency := f\<rparr>) p = deref_dpimapping priv p"
  "deref_dpimapping (priv\<lparr>led_states := l\<rparr>) p = deref_dpimapping priv p"
  "deref_dpimapping (priv\<lparr>cur_dpimapping_X := x\<rparr>) p = deref_dpimapping priv p"
  "deref_dpimapping (priv\<lparr>cur_dpimapping_Y := y\<rparr>) p = deref_dpimapping priv p"
  by (cases p; simp add: deref_dpimapping_def)+

lemma run_op_commit_ready:
  assumes "commit_ready m" and "table_slot_op m x"
  shows "commit_ready (run_op x m)"
proof (cases x)
  case (Commit force)
  then show ?thesis using assms(1)
    by (cases "drv_data m"; cases "naga_do_commit (the (drv_data m)) (usb m)")
       (auto simp: run_op_def naga_commit_def commit_ready_def split: sum.splits)
next
  case (Led_toggle led_id s)
  then show ?thesis using assms(1)
    by (auto simp: run_op_def naga_led_toggle_def commit_ready_def split: option.splits)
next
  case (Set_freq f)
  then show ?thesis using assms(1)
    by (auto simp: run_op_def naga_set_freq_def commit_ready_def split: option.splits)
next
  case (Set_dpimapping a d)
  then show ?thesis using assms
    by (auto simp: run_op_def naga_set_dpimapping_def commit_ready_def deref_dpimapping_def
        split: option.splits)
next
  case (Claim e)
  then show ?thesis using assms(1) by (simp add: run_op_def mouse_claim_def commit_ready_def)
next
  case Release
  then show ?thesis using assms(1) by (simp add: run_op_def mouse_release_def commit_ready_def)
qed


text \<open>
  C1 (as amended). On an attached device that is ready for a commit (its resolution builder
  is set and its current X and Y mappings are slots of the mapping table, as attach leaves
  them and as every operation that keeps to the table keeps them): \<^verbatim>\<open>naga_commit\<close>
  returns busy when the claim count is zero; when nothing is pending and \<open>force\<close> is zero
  it succeeds and returns the mouse as it was, so it makes no transport call; otherwise it
  sends the commands of \<open>spec_commit_commands\<close> in order (the resolution command, one LED
  command per LED that is not unsupported, then the frequency command) and stops at the
  first exchange that fails, returning that exchange's error. The packets written are the
  signed commands up to and including the failing one, all of them when no exchange fails.
  On an error \<open>commit_pending\<close> is left as it was (true if it was true, false after a
  forced commit with nothing pending); it is cleared only when every exchange succeeded.
  When the stored frequency has no device code, no frequency command is sent and the result
  is invalid-argument, again with \<open>commit_pending\<close> as it was.
\<close>

theorem commit_sequence:
  assumes "drv_data m = Some priv" and "commit_ready m"
  shows "\<exists>res_cmd. call_command_init_resolution priv = Some res_cmd
       \<and> (claim_count m = 0 \<longrightarrow> naga_commit force m = (Inl EBUSY, m))
       \<and> (claim_count m \<noteq> 0 \<and> \<not> commit_pending priv \<and> force = 0 \<longrightarrow>
            naga_commit force m = (Inr (), m))
       \<and> (claim_count m \<noteq> 0 \<and> (commit_pending priv \<or> force \<noteq> 0) \<longrightarrow>
            (let cmds = spec_commit_commands priv res_cmd;
                 r = spec_send_in_order cmds (usb m)
             in naga_commit force m =
                  (if fst r \<noteq> 0 then (Inl (ECODE (fst r)), m\<lparr>usb := snd r\<rparr>)
                   else if freq_code (frequency priv) = None then (Inl EINVAL, m\<lparr>usb := snd r\<rparr>)
                   else (Inr (), m\<lparr>drv_data := Some (priv\<lparr>commit_pending := False\<rparr>),
                                   usb := snd r\<rparr>))
                \<and> (\<exists>k\<le>length cmds.
                      written (trace (snd r)) = written (trace (usb m)) @ map sign (take k cmds)
                      \<and> (fst r = 0 \<longrightarrow> k = length cmds))))"
proof -
  from commit_ready_builder[OF assms] obtain res_cmd where
    b: "call_command_init_resolution priv = Some res_cmd" by blast
  show ?thesis
    by (rule exI[of _ res_cmd], rule conjI[OF b], rule naga_commit_spec[OF assms(1) b])
qed

lemma classic_commit_eval:
  "call_command_init_resolution classic_priv = Some classic_res_cmd"
  "spec_commit_commands classic_priv classic_res_cmd =
     [classic_res_cmd, led_command 0 RAZER_LED_ON, led_command 1 RAZER_LED_ON, freq_command 1]"
  "fst (spec_send_in_order (spec_commit_commands classic_priv classic_res_cmd)
          (usb_start good_device)) = 0"
  "freq_code (frequency classic_priv) = Some 1"
  "commit_pending classic_priv = False"
  by code_simp+

lemma classic_ready: "commit_ready (classic_mouse c dev)"
  by (rule builder_commit_ready[OF _ classic_commit_eval(1)]) (simp add: classic_mouse_def)

theorem commit_sequence_witness:
  "drv_data (classic_mouse 1 good_device) = Some classic_priv
   \<and> commit_ready (classic_mouse 1 good_device)
   \<and> call_command_init_resolution classic_priv = Some classic_res_cmd
   \<and> naga_commit 0 (classic_mouse 0 good_device) = (Inl EBUSY, classic_mouse 0 good_device)
   \<and> naga_commit 0 (classic_mouse 1 good_device) = (Inr (), classic_mouse 1 good_device)
   \<and> fst (naga_commit 1 (classic_mouse 1 good_device)) = Inr ()
   \<and> drv_data (snd (naga_commit 1 (classic_mouse 1 good_device)))
        = Some (classic_priv\<lparr>commit_pending := False\<rparr>)
   \<and> written (trace (usb (snd (naga_commit 1 (classic_mouse 1 good_device)))))
        = map sign [classic_res_cmd, led_command 0 RAZER_LED_ON, led_command 1 RAZER_LED_ON,
                    freq_command 1]"
proof -
  have d: "drv_data (classic_mouse c dev) = Some classic_priv" for c dev
    by (simp add: classic_mouse_def)
  note e = classic_commit_eval
  have a: "naga_commit 0 (classic_mouse 0 good_device) = (Inl EBUSY, classic_mouse 0 good_device)"
    using commit_sequence [OF d classic_ready, of 0 good_device 0]
    by (auto simp add: classic_mouse_def)
  have b: "naga_commit 0 (classic_mouse 1 good_device) = (Inr (), classic_mouse 1 good_device)"
    using commit_sequence [OF d classic_ready, of 1 good_device 0] e(5)
    by (auto simp add: classic_mouse_def)
  have u: "usb (classic_mouse 1 good_device) = usb_start good_device"
      and cc: "claim_count (classic_mouse 1 good_device) \<noteq> 0"
    by (simp_all add: classic_mouse_def)
  let ?r = "spec_send_in_order (spec_commit_commands classic_priv classic_res_cmd)
              (usb_start good_device)"
  from commit_sequence [OF d classic_ready, of 1 good_device 1] obtain rc where
    rc: "call_command_init_resolution classic_priv = Some rc"
    and body: "claim_count (classic_mouse 1 good_device) \<noteq> 0
                 \<and> (commit_pending classic_priv \<or> (1::int) \<noteq> 0) \<longrightarrow>
            (let cmds = spec_commit_commands classic_priv rc;
                 r = spec_send_in_order cmds (usb (classic_mouse 1 good_device))
             in naga_commit 1 (classic_mouse 1 good_device) =
                  (if fst r \<noteq> 0 then (Inl (ECODE (fst r)), (classic_mouse 1 good_device)\<lparr>usb := snd r\<rparr>)
                   else if freq_code (frequency classic_priv) = None
                        then (Inl EINVAL, (classic_mouse 1 good_device)\<lparr>usb := snd r\<rparr>)
                   else (Inr (), (classic_mouse 1 good_device)
                           \<lparr>drv_data := Some (classic_priv\<lparr>commit_pending := False\<rparr>),
                            usb := snd r\<rparr>))
                \<and> (\<exists>k\<le>length cmds.
                      written (trace (snd r))
                        = written (trace (usb (classic_mouse 1 good_device))) @ map sign (take k cmds)
                      \<and> (fst r = 0 \<longrightarrow> k = length cmds)))"
    by blast
  from rc e(1) have rc': "rc = classic_res_cmd" by simp
  from body
  have c: "naga_commit 1 (classic_mouse 1 good_device) =
            (Inr (), (classic_mouse 1 good_device)
               \<lparr>drv_data := Some (classic_priv\<lparr>commit_pending := False\<rparr>), usb := snd ?r\<rparr>)"
    and w: "\<exists>k\<le>length (spec_commit_commands classic_priv classic_res_cmd).
              written (trace (snd ?r)) = written (trace (usb_start good_device))
                 @ map sign (take k (spec_commit_commands classic_priv classic_res_cmd))
              \<and> (fst ?r = 0 \<longrightarrow> k = length (spec_commit_commands classic_priv classic_res_cmd))"
    unfolding Let_def u rc' using cc e(3,4) by simp_all
  from w e(3) have "written (trace (snd ?r))
      = map sign (spec_commit_commands classic_priv classic_res_cmd)"
    by (auto simp add: usb_start_def)
  with c have w': "written (trace (usb (snd (naga_commit 1 (classic_mouse 1 good_device)))))
        = map sign [classic_res_cmd, led_command 0 RAZER_LED_ON, led_command 1 RAZER_LED_ON,
                    freq_command 1]"
    by (simp add: e(2))
  from a b c w' d e(1) classic_ready show ?thesis by simp
qed


text \<open>
  C1 as stated fails: a forced commit of a claimed Naga Classic with nothing pending, on a
  device where every transfer fails, returns the transfer's error and leaves
  \<open>commit_pending\<close> false, not true.
\<close>

theorem forced_commit_failure_counterexample:
  "claim_count (classic_mouse 1 dead_device) \<noteq> 0
   \<and> map_option commit_pending (drv_data (classic_mouse 1 dead_device)) = Some False
   \<and> fst (naga_commit 1 (classic_mouse 1 dead_device)) = Inl (ECODE (- 1))
   \<and> map_option commit_pending (drv_data (snd (naga_commit 1 (classic_mouse 1 dead_device))))
        = Some False"
  by code_simp

subsection \<open>Setting the frequency\<close>


lemma builders_ignore_freq [simp]:
  "call_command_init_resolution (priv\<lparr>frequency := f, commit_pending := b\<rparr>)
     = call_command_init_resolution priv"
  "spec_led_commands (priv\<lparr>frequency := f, commit_pending := b\<rparr>) = spec_led_commands priv"
  by (simp_all add: call_command_init_resolution_def naga_command_init_resolution_5600_def
      naga_command_init_resolution_8200_def deref_dpimapping_def spec_led_commands_def
      split: option.splits resolution_fn.splits)






subsection \<open>Attach\<close>

lemma init_success:
  assumes "razer_naga_init ids env m = (Inr (), m')"
  shows "\<exists>pid fwver. get_device_descriptor env = Some pid
           \<and> drv_data m' = Some (init_settings ids pid (zalloc_naga_private\<lparr>fw_version := fwver\<rparr>))
           \<and> claim_count m' = claim_count m"
  using assms
  by (auto simp add: razer_naga_init_def Let_def err_free_def err_release_def mouse_claim_def
        mouse_release_def
      split: option.splits if_splits prod.splits sum.splits)

text \<open>Attach leaves the mouse ready for a commit.\<close>

lemma attach_commit_ready:
  assumes "razer_naga_init ids env m = (Inr (), m')"
  shows "commit_ready m'"
proof -
  from init_success[OF assms] obtain pid fwver where
    d: "drv_data m' = Some (init_settings ids pid (zalloc_naga_private\<lparr>fw_version := fwver\<rparr>))"
    by auto
  let ?p = "init_settings ids pid (zalloc_naga_private\<lparr>fw_version := fwver\<rparr>)"
  have "length (dpimapping ?p) = 82" by (simp add: init_settings_fields)
  then show ?thesis
    using d by (simp add: commit_ready_def init_settings_fields deref_dpimapping_def)
qed

lemma attach_eval:
  "fst (razer_naga_init example_ids (attach_ok 0x0040) (unattached_mouse good_device)) = Inr ()"
  "fst (razer_naga_init example_ids (attach_ok 0x0015) (unattached_mouse slow_device)) = Inr ()"
  "fst (razer_naga_init example_ids (attach_ok 0x002E) (unattached_mouse good_device)) = Inr ()"
  by code_simp+

lemma attach_eval_pair:
  "razer_naga_init example_ids (attach_ok 0x0040) (unattached_mouse good_device)
     = (Inr (), snd (razer_naga_init example_ids (attach_ok 0x0040) (unattached_mouse good_device)))"
  "razer_naga_init example_ids (attach_ok 0x0015) (unattached_mouse slow_device)
     = (Inr (), snd (razer_naga_init example_ids (attach_ok 0x0015) (unattached_mouse slow_device)))"
  "razer_naga_init example_ids (attach_ok 0x002E) (unattached_mouse good_device)
     = (Inr (), snd (razer_naga_init example_ids (attach_ok 0x002E) (unattached_mouse good_device)))"
  using attach_eval by (simp_all add: prod_eq_iff)


text \<open>
  C6. A successful \<^verbatim>\<open>razer_naga_init\<close> on a device whose product id is that of the Naga
  2014 leaves a driver with 82 mapping slots, all three LEDs on and the 8200 (raw) resolution
  builder. With any other product id, in particular with each of the ids of the Classic,
  Epic, 2012, Hex and Hex v2 (which, being case labels of one switch, differ from the id of
  the 2014), it leaves 56 slots, the thumb-grid LED marked unsupported with the other two
  on, and the 5600 (scaled) builder. Slot \<open>j\<close> of the table holds the resolution
  \<open>(j + 1) * 100\<close>.
\<close>

theorem attach_variant:
  assumes "razer_naga_init ids env m = (Inr (), m')"
      and "get_device_descriptor env = Some pid"
  shows "\<exists>priv. drv_data m' = Some priv
       \<and> (pid = RAZER_NAGA_PID_2014 ids \<longrightarrow>
            nb_dpimappings priv = 82
            \<and> led_states priv = [RAZER_LED_ON, RAZER_LED_ON, RAZER_LED_ON]
            \<and> command_init_resolution priv = Some Naga_command_init_resolution_8200)
       \<and> (pid \<noteq> RAZER_NAGA_PID_2014 ids \<longrightarrow>
            nb_dpimappings priv = 56
            \<and> led_states priv = [RAZER_LED_ON, RAZER_LED_ON, RAZER_LED_UNKNOWN]
            \<and> command_init_resolution priv = Some Naga_command_init_resolution_5600)
       \<and> (distinct [RAZER_NAGA_PID_CLASSIC ids, RAZER_NAGA_PID_EPIC ids, RAZER_NAGA_PID_2012 ids,
                     RAZER_NAGA_PID_HEX ids, RAZER_NAGA_PID_HEX_V2 ids, RAZER_NAGA_PID_2014 ids]
            \<and> pid \<in> {RAZER_NAGA_PID_CLASSIC ids, RAZER_NAGA_PID_EPIC ids, RAZER_NAGA_PID_2012 ids,
                       RAZER_NAGA_PID_HEX ids, RAZER_NAGA_PID_HEX_V2 ids} \<longrightarrow>
            nb_dpimappings priv = 56
            \<and> led_states priv ! NAGA_LED_THUMB_GRID = RAZER_LED_UNKNOWN
            \<and> command_init_resolution priv = Some Naga_command_init_resolution_5600)
       \<and> (\<forall>j<nb_dpimappings priv.
             dpimapping priv ! j = \<lparr>nr = j, res_DIM_0 = (int j + 1) * 100, dimension_mask = 1\<rparr>)"
proof -
  from init_success[OF assms(1)] assms(2) obtain fwver where
    d: "drv_data m' = Some (init_settings ids pid (zalloc_naga_private\<lparr>fw_version := fwver\<rparr>))"
    by auto
  let ?p = "init_settings ids pid (zalloc_naga_private\<lparr>fw_version := fwver\<rparr>)"
  have l: "led_states ?p = [RAZER_LED_ON, RAZER_LED_ON,
      if pid = RAZER_NAGA_PID_2014 ids then RAZER_LED_ON else RAZER_LED_UNKNOWN]"
    by (rule init_settings_leds) simp
  have s: "\<forall>j<nb_dpimappings ?p.
             dpimapping ?p ! j = \<lparr>nr = j, res_DIM_0 = (int j + 1) * 100, dimension_mask = 1\<rparr>"
    by (intro allI impI init_settings_slot) simp_all
  show ?thesis
    apply (rule exI[of _ ?p])
    apply (intro conjI impI)
    using d l s
    by (auto simp add: init_settings_fields NAGA_LED_THUMB_GRID_def)
qed

theorem attach_variant_witness:
  "razer_naga_init example_ids (attach_ok 0x0040) (unattached_mouse good_device)
     = (Inr (), snd (razer_naga_init example_ids (attach_ok 0x0040) (unattached_mouse good_device)))
   \<and> (\<exists>priv. drv_data (snd (razer_naga_init example_ids (attach_ok 0x0040)
                              (unattached_mouse good_device))) = Some priv
          \<and> nb_dpimappings priv = 82
          \<and> led_states priv = [RAZER_LED_ON, RAZER_LED_ON, RAZER_LED_ON]
          \<and> command_init_resolution priv = Some Naga_command_init_resolution_8200)
   \<and> razer_naga_init example_ids (attach_ok 0x0015) (unattached_mouse slow_device)
     = (Inr (), snd (razer_naga_init example_ids (attach_ok 0x0015) (unattached_mouse slow_device)))
   \<and> (\<exists>priv. drv_data (snd (razer_naga_init example_ids (attach_ok 0x0015)
                              (unattached_mouse slow_device))) = Some priv
          \<and> nb_dpimappings priv = 56
          \<and> led_states priv ! NAGA_LED_THUMB_GRID = RAZER_LED_UNKNOWN
          \<and> command_init_resolution priv = Some Naga_command_init_resolution_5600)"
proof -
  have g: "get_device_descriptor (attach_ok pid) = Some pid" for pid
    by (simp add: attach_ok_def)
  have a: "\<exists>priv. drv_data (snd (razer_naga_init example_ids (attach_ok 0x0040)
                              (unattached_mouse good_device))) = Some priv
          \<and> nb_dpimappings priv = 82
          \<and> led_states priv = [RAZER_LED_ON, RAZER_LED_ON, RAZER_LED_ON]
          \<and> command_init_resolution priv = Some Naga_command_init_resolution_8200"
    using attach_variant [OF attach_eval_pair(1) g] by (auto simp add: example_ids_def)
  have b: "\<exists>priv. drv_data (snd (razer_naga_init example_ids (attach_ok 0x0015)
                              (unattached_mouse slow_device))) = Some priv
          \<and> nb_dpimappings priv = 56
          \<and> led_states priv ! NAGA_LED_THUMB_GRID = RAZER_LED_UNKNOWN
          \<and> command_init_resolution priv = Some Naga_command_init_resolution_5600"
    using attach_variant [OF attach_eval_pair(2) g] by (auto simp add: example_ids_def)
  from a b attach_eval_pair(1,2) show ?thesis by blast
qed

text \<open>
  C10. After every successful \<^verbatim>\<open>razer_naga_init\<close>, whatever the product id, the current
  X and Y mappings both point to slot 9 of the table, the slot with resolution 1000 DPI and
  the only slot in use with that resolution; the frequency is 1000 Hz.
\<close>

theorem attach_default_dpi:
  assumes "razer_naga_init ids env m = (Inr (), m')"
  shows "\<exists>priv. drv_data m' = Some priv
       \<and> cur_dpimapping_X priv = Some 9 \<and> cur_dpimapping_Y priv = Some 9
       \<and> deref_dpimapping priv (Some 9) = Some \<lparr>nr = 9, res_DIM_0 = 1000, dimension_mask = 1\<rparr>
       \<and> (\<forall>j<nb_dpimappings priv. res_DIM_0 (dpimapping priv ! j) = 1000 \<longrightarrow> j = 9)
       \<and> frequency priv = RAZER_MOUSE_FREQ_1000HZ"
proof -
  from init_success[OF assms(1)] obtain pid fwver where
    d: "drv_data m' = Some (init_settings ids pid (zalloc_naga_private\<lparr>fw_version := fwver\<rparr>))"
    by auto
  let ?p = "init_settings ids pid (zalloc_naga_private\<lparr>fw_version := fwver\<rparr>)"
  have s: "j < nb_dpimappings ?p \<Longrightarrow>
             dpimapping ?p ! j = \<lparr>nr = j, res_DIM_0 = (int j + 1) * 100, dimension_mask = 1\<rparr>" for j
    by (rule init_settings_slot) simp_all
  have n9: "9 < nb_dpimappings ?p" by (simp add: init_settings_fields)
  have l: "length (dpimapping ?p) = 82" by (simp add: init_settings_fields)
  have dr: "deref_dpimapping ?p (Some 9) = Some \<lparr>nr = 9, res_DIM_0 = 1000, dimension_mask = 1\<rparr>"
    using s[OF n9] l by (simp add: deref_dpimapping_def)
  have u: "\<forall>j<nb_dpimappings ?p. res_DIM_0 (dpimapping ?p ! j) = 1000 \<longrightarrow> j = 9"
    using s by auto
  show ?thesis
    apply (rule exI[of _ ?p])
    using d dr u by (simp add: init_settings_fields)
qed

theorem attach_default_dpi_witness:
  "razer_naga_init example_ids (attach_ok 0x002E) (unattached_mouse good_device)
     = (Inr (), snd (razer_naga_init example_ids (attach_ok 0x002E) (unattached_mouse good_device)))
   \<and> (\<exists>priv. drv_data (snd (razer_naga_init example_ids (attach_ok 0x002E)
                              (unattached_mouse good_device))) = Some priv
          \<and> cur_dpimapping_X priv = Some 9 \<and> cur_dpimapping_Y priv = Some 9
          \<and> deref_dpimapping priv (Some 9)
              = Some \<lparr>nr = 9, res_DIM_0 = 1000, dimension_mask = 1\<rparr>)"
  using attach_default_dpi [OF attach_eval_pair(3)] attach_eval_pair(3) by blast


subsection \<open>Checksums of the packets sent\<close>

lemma spec_checksum_eq: "spec_checksum p = foldl (XOR) 0 (map ((!) p) [2..<86])"
proof -
  have "sizeof_naga_command - 4 = 86" by (simp add: sizeof_naga_command_def)
  then show ?thesis by (simp only: spec_checksum_def)
qed

lemma sign_spec:
  assumes "length cmd = sizeof_naga_command" "cmd ! 86 = 0" "cmd ! 87 = 0"
  shows "length (sign cmd) = sizeof_naga_command"
    and "sign cmd ! off_checksum = spec_checksum (sign cmd)"
    and "spec_checksum (sign cmd) = spec_checksum cmd"
proof -
  show "length (sign cmd) = sizeof_naga_command" using sign_checksum(1)[OF assms(1)] .
  have a: "sign cmd ! off_checksum = spec_checksum cmd"
    using sign_checksum(2)[OF assms(1)] xor_tail_zero[of "(!) cmd"] assms(2,3)
    by (simp only: spec_checksum_eq)
  have "map ((!) (sign cmd)) [2..<86] = map ((!) cmd) [2..<86]"
  proof (rule map_cong[OF refl])
    fix x :: nat assume "x \<in> set [2..<86]"
    then have "x < 86" by (simp only: set_upt atLeastLessThan_iff)
    then have "x \<noteq> off_checksum" by (simp add: off_checksum_def)
    then show "sign cmd ! x = cmd ! x" by (rule sign_checksum(3)[OF assms(1)])
  qed
  then show b: "spec_checksum (sign cmd) = spec_checksum cmd"
    by (simp only: spec_checksum_eq)
  from a b show "sign cmd ! off_checksum = spec_checksum (sign cmd)" by simp
qed

lemma checksums_ok_append:
  "checksums_ok (xs @ ys) = (checksums_ok xs \<and> checksums_ok ys)"
  by (simp add: checksums_ok_def)

lemma checksums_ok_written:
  "written evs' = written evs @ ps \<Longrightarrow> checksums_ok evs \<Longrightarrow>
   \<forall>p\<in>set ps. length p = sizeof_naga_command \<and> p ! off_checksum = spec_checksum p \<Longrightarrow>
   checksums_ok evs'"
  by (auto simp add: checksums_ok_def list_all_iff)

lemma built_length:
  "length fw_ver_command = sizeof_naga_command"
  "length (led_command i st) = sizeof_naga_command"
  "length (freq_command c) = sizeof_naga_command"
  "call_command_init_resolution priv = Some cmd \<Longrightarrow> length cmd = sizeof_naga_command"
  by (auto simp add: fw_ver_command_def led_command_def freq_command_def Let_def
      call_command_init_resolution_def naga_command_init_resolution_5600_def
      naga_command_init_resolution_8200_def sizeof_naga_command_def
      split: option.splits resolution_fn.splits)

lemma send_command_ok:
  assumes "checksums_ok (trace io)" "length cmd = sizeof_naga_command" "cmd ! 86 = 0" "cmd ! 87 = 0"
  shows "checksums_ok (trace (snd (snd (naga_send_command cmd io))))"
proof (rule checksums_ok_written[OF send_command_written assms(1)])
  show "\<forall>p\<in>set [sign cmd]. length p = sizeof_naga_command \<and> p ! off_checksum = spec_checksum p"
    using sign_spec(1,2)[OF assms(2,3,4)] by (simp only: list.set ball_simps simp_thms)
qed

lemma spec_send_ok:
  "checksums_ok (trace io) \<Longrightarrow>
   \<forall>c\<in>set cmds. length c = sizeof_naga_command \<and> c ! 86 = 0 \<and> c ! 87 = 0 \<Longrightarrow>
   checksums_ok (trace (snd (spec_send_in_order cmds io)))"
proof (induction cmds arbitrary: io)
  case Nil
  then show ?case by simp
next
  case (Cons c cs)
  obtain e b io1 where sc: "naga_send_command c io = (e, b, io1)"
    by (cases "naga_send_command c io") auto
  have "checksums_ok (trace io1)"
    using send_command_ok[of io c] Cons.prems sc by simp
  with Cons sc show ?case by simp
qed

lemma commit_commands_built:
  assumes "call_command_init_resolution priv = Some rc"
  shows "\<forall>c\<in>set (spec_commit_commands priv rc).
           length c = sizeof_naga_command \<and> c ! 86 = 0 \<and> c ! 87 = 0"
  using built_padding_zero(4)[OF assms] built_length(4)[OF assms]
    built_padding_zero(2,3) built_length(2,3)
  by (auto simp add: spec_commit_commands_def spec_led_commands_def split: option.splits)

lemma do_commit_ok:
  assumes "checksums_ok (trace io)"
  shows "checksums_ok (trace (snd (naga_do_commit priv io)))"
proof (cases "call_command_init_resolution priv")
  case None
  then show ?thesis using assms by (simp add: naga_do_commit_def)
next
  case (Some rc)
  from spec_send_ok[OF assms commit_commands_built[OF Some]] do_commit_spec[OF Some, of io]
  show ?thesis by (simp add: Let_def)
qed

lemma read_fw_ver_ok:
  assumes "checksums_ok (trace io)"
  shows "checksums_ok (trace (snd (naga_read_fw_ver io)))"
proof -
  from probe_written[of 0 io] obtain n where
    "written (trace (snd (naga_read_fw_ver io))) = written (trace io) @ replicate n (sign fw_ver_command)"
    by (auto simp: naga_read_fw_ver_def)
  then show ?thesis
  proof (rule checksums_ok_written[OF _ assms])
    have "length (sign fw_ver_command) = sizeof_naga_command
        \<and> sign fw_ver_command ! off_checksum = spec_checksum (sign fw_ver_command)"
      using sign_spec(1,2)[OF built_length(1)] built_padding_zero(1) by blast
    then show "\<forall>p\<in>set (replicate n (sign fw_ver_command)).
             length p = sizeof_naga_command \<and> p ! off_checksum = spec_checksum p"
      by (simp only: set_replicate_conv_if split: if_splits) blast
  qed
qed

lemma commit_ok:
  "checksums_ok (trace (usb m)) \<Longrightarrow> checksums_ok (trace (usb (snd (naga_commit force m))))"
  using do_commit_ok[of "usb m" "the (drv_data m)"]
  by (cases "drv_data m"; cases "naga_do_commit (the (drv_data m)) (usb m)")
     (auto simp: naga_commit_def split: sum.splits)

lemma run_op_ok:
  "checksums_ok (trace (usb m)) \<Longrightarrow> checksums_ok (trace (usb (run_op x m)))"
  by (cases x)
     (auto simp: run_op_def commit_ok naga_led_toggle_def naga_set_freq_def
        naga_set_dpimapping_def mouse_claim_def mouse_release_def split: option.splits)

lemma run_ops_ok:
  "checksums_ok (trace (usb m)) \<Longrightarrow> checksums_ok (trace (usb (run_ops xs m)))"
  by (induction xs arbitrary: m) (simp_all add: run_op_ok)

lemma init_ok:
  assumes "checksums_ok (trace (usb m))"
  shows "checksums_ok (trace (usb (snd (razer_naga_init ids env m))))"
proof -
  obtain r io where rf: "naga_read_fw_ver (usb m) = (r, io)"
    by (cases "naga_read_fw_ver (usb m)") auto
  have pio: "checksums_ok (trace io)" using read_fw_ver_ok[OF assms] rf by simp
  have dc: "naga_do_commit p io = (r2, io2) \<Longrightarrow> checksums_ok (trace io2)" for p r2 io2
    using do_commit_ok[OF pio, of p] by simp
  show ?thesis
    using assms pio rf
    by (auto simp add: razer_naga_init_def Let_def err_free_def err_release_def mouse_claim_def
          mouse_release_def
        split: option.splits prod.splits sum.splits dest: dc)
qed


text \<open>
  C2. The checksum byte that \<^verbatim>\<open>naga_send_command\<close> writes into a packet before it
  transmits it is the XOR of the packet's bytes at offsets 2 through 85, the range
  \<open>[2, size - 4)\<close>, for every packet the driver hands to it: the firmware query, the LED
  and frequency commands and the resolution commands of both builders are 90 bytes long with
  zero in bytes 86 and 87, and for such a packet the signed packet is the only one written,
  differs from the given one in the checksum byte alone, and carries
  \<open>spec_checksum\<close> there. So every packet that the firmware probe, a commit, an attach or
  any sequence of operations adds to the trace carries the checksum of the spec.
\<close>

theorem transmitted_checksums:
  "(length cmd = sizeof_naga_command \<and> cmd ! 86 = 0 \<and> cmd ! 87 = 0 \<longrightarrow>
      written (trace (snd (snd (naga_send_command cmd io)))) = written (trace io) @ [sign cmd]
      \<and> length (sign cmd) = sizeof_naga_command
      \<and> sign cmd ! off_checksum = spec_checksum cmd
      \<and> (\<forall>i. i \<noteq> off_checksum \<longrightarrow> sign cmd ! i = cmd ! i))
   \<and> (cmd = fw_ver_command \<or> cmd = led_command led_id st \<or> cmd = freq_command freq
        \<or> call_command_init_resolution priv = Some cmd \<longrightarrow>
      length cmd = sizeof_naga_command \<and> cmd ! 86 = 0 \<and> cmd ! 87 = 0)
   \<and> (checksums_ok (trace io) \<longrightarrow>
        checksums_ok (trace (snd (naga_read_fw_ver io)))
        \<and> checksums_ok (trace (snd (naga_do_commit priv io))))
   \<and> (checksums_ok (trace (usb m)) \<longrightarrow>
        checksums_ok (trace (usb (snd (razer_naga_init ids env m))))
        \<and> checksums_ok (trace (usb (run_ops xs m))))"
proof (intro conjI impI)
  assume a: "length cmd = sizeof_naga_command \<and> cmd ! 86 = 0 \<and> cmd ! 87 = 0"
  show "written (trace (snd (snd (naga_send_command cmd io)))) = written (trace io) @ [sign cmd]"
    by (rule send_command_written)
  from a show "length (sign cmd) = sizeof_naga_command" by (simp add: sign_spec(1))
  from a sign_spec(2,3)[of cmd] show "sign cmd ! off_checksum = spec_checksum cmd" by simp
  from a show "\<forall>i. i \<noteq> off_checksum \<longrightarrow> sign cmd ! i = cmd ! i"
    by (simp add: sign_checksum(3))
next
  assume "cmd = fw_ver_command \<or> cmd = led_command led_id st \<or> cmd = freq_command freq
        \<or> call_command_init_resolution priv = Some cmd"
  then show "length cmd = sizeof_naga_command" and "cmd ! 86 = 0" and "cmd ! 87 = 0"
    using built_length(4)[of priv cmd] built_padding_zero(4)[of priv cmd]
    by (auto simp add: built_length(1,2,3) built_padding_zero(1,2,3))
next
  assume "checksums_ok (trace io)"
  then show "checksums_ok (trace (snd (naga_read_fw_ver io)))"
    and "checksums_ok (trace (snd (naga_do_commit priv io)))"
    by (rule read_fw_ver_ok, rule do_commit_ok)
next
  assume "checksums_ok (trace (usb m))"
  then show "checksums_ok (trace (usb (snd (razer_naga_init ids env m))))"
    and "checksums_ok (trace (usb (run_ops xs m)))"
    by (rule init_ok, rule run_ops_ok)
qed

lemma attach_2014_packets:
  "written (trace (usb (snd (razer_naga_init example_ids (attach_ok 0x0040)
                               (unattached_mouse good_device)))))
     = map sign [fw_ver_command,
                 store_be16 (off_values + 3) 1000 (store_be16 (off_values + 1) 1000
                   (store_be16 off_request 0x0405 (store_be16 off_command 0x0007
                      naga_command_init))),
                 led_command 0 RAZER_LED_ON, led_command 1 RAZER_LED_ON,
                 led_command 2 RAZER_LED_ON, freq_command 1]"
  "sign fw_ver_command ! off_checksum = 0x83"
  "sign (freq_command 1) ! off_checksum = 0x05"
  "checksums_ok (trace (usb (unattached_mouse good_device)))"
  by code_simp+

theorem transmitted_checksums_witness:
  "checksums_ok (trace (usb (unattached_mouse good_device)))
   \<and> checksums_ok (trace (usb (snd (razer_naga_init example_ids (attach_ok 0x0040)
                                       (unattached_mouse good_device)))))
   \<and> length (written (trace (usb (snd (razer_naga_init example_ids (attach_ok 0x0040)
                                          (unattached_mouse good_device)))))) = 6
   \<and> length fw_ver_command = sizeof_naga_command
   \<and> fw_ver_command ! 86 = 0 \<and> fw_ver_command ! 87 = 0
   \<and> sign fw_ver_command ! off_checksum = spec_checksum fw_ver_command
   \<and> sign fw_ver_command ! off_checksum = 0x83"
proof -
  note t = transmitted_checksums [of fw_ver_command "usb_start good_device" 0 RAZER_LED_ON 1
      classic_priv "unattached_mouse good_device" example_ids "attach_ok 0x0040" "[]"]
  from t have b: "length fw_ver_command = sizeof_naga_command
      \<and> fw_ver_command ! 86 = 0 \<and> fw_ver_command ! 87 = 0" by blast
  from t b have c: "sign fw_ver_command ! off_checksum = spec_checksum fw_ver_command" by blast
  from t attach_2014_packets(4)
  have d: "checksums_ok (trace (usb (snd (razer_naga_init example_ids (attach_ok 0x0040)
                                       (unattached_mouse good_device)))))" by blast
  have e: "length (written (trace (usb (snd (razer_naga_init example_ids (attach_ok 0x0040)
                                          (unattached_mouse good_device)))))) = 6"
    by (simp only: attach_2014_packets(1)) simp
  from b c d e attach_2014_packets(2,4) show ?thesis by blast
qed


end
